theory Spec2Isabelle
  imports Main "HOL-Library.Sublist"
begin

section \<open>Data model (app/models.py, app/api.py)\<close>

text \<open>
  The pydantic models become records. Identities, roles and phone numbers are Python
  strings; \<open>str | None\<close> is \<open>string option\<close>. A timezone-aware \<open>datetime\<close> is its
  number of microseconds since the epoch (an \<open>int\<close>), so that the difference of two
  datetimes is the \<open>timedelta\<close> in microseconds. The field \<open>id\<close> of Caregiver and of
  Shift is \<open>c_id\<close> and \<open>s_id\<close>; the \<open>shift_id\<close> of InboundMessage and of
  ShiftClaimResponse is \<open>msg_shift_id\<close> and \<open>resp_shift_id\<close>.
\<close>

record Caregiver =
  c_id :: string
  c_name :: string
  role :: string
  phone :: string

record Shift =
  s_id :: string
  organization_id :: string
  role_required :: string
  start_time :: int
  end_time :: int
  claimed_by_caregiver_id :: "string option"

record ShiftFanoutState =
  shift_id :: string
  started_at :: int
  sms_notified_caregiver_ids :: "string list"
  call_notified_caregiver_ids :: "string list"
  claimed_caregiver_id :: "string option"
  escalated_to_call :: bool

record InboundMessage =
  from_phone :: string
  msg_shift_id :: string
  body :: string

record ShiftClaimResponse =
  success :: bool
  message :: string
  resp_shift_id :: string
  claimed_by :: "string option"

text \<open>
  \<open>ShiftFanoutState(shift_id=k, started_at=t)\<close>: the other fields take their defaults
  (pydantic copies a mutable default for every instance).
\<close>

definition new_fanout_state :: "string \<Rightarrow> int \<Rightarrow> ShiftFanoutState" where
  "new_fanout_state k t =
     \<lparr>shift_id = k, started_at = t, sms_notified_caregiver_ids = [],
      call_notified_caregiver_ids = [], claimed_caregiver_id = None,
      escalated_to_call = False\<rparr>"

text \<open>\<open>timedelta(minutes=10)\<close>, in microseconds.\<close>

definition ten_minutes :: int where
  "ten_minutes = 600000000"

section \<open>The stores (app/state.py)\<close>

text \<open>
  Modelled from the spec: the class \<open>InMemoryKeyValueDatabase\<close> of app/database.py,
  which is not among the sources. The spec gives it four operations: \<open>get(id)\<close>
  returns the value or absent and never fails, \<open>put(id, value)\<close> is an unconditional
  upsert, \<open>all()\<close> is the sequence of values in insertion order, \<open>clear()\<close> empties
  the store. A store is an association list in insertion order; \<open>put\<close> on a key that
  is present replaces the value where it stands, as a Python dict does.

  The store is in memory and keeps the objects it is given: the object that \<open>get\<close>
  returns is the stored one, so an assignment to one of its fields, or an \<open>append\<close> to
  one of its lists, is visible in the store before any \<open>put\<close>. The endpoints below write
  such an in-place change into the store at the key the object was read from.
\<close>

type_synonym 'v store = "(string \<times> 'v) list"

definition get :: "'v store \<Rightarrow> string \<Rightarrow> 'v option" where
  "get db k = map_of db k"

fun put :: "'v store \<Rightarrow> string \<Rightarrow> 'v \<Rightarrow> 'v store" where
  "put [] k v = [(k, v)]"
| "put ((k', v') # db) k v = (if k' = k then (k, v) # db else (k', v') # put db k v)"

definition all_values :: "'v store \<Rightarrow> 'v list" where
  "all_values db = map snd db"

definition clear :: "'v store \<Rightarrow> 'v store" where
  "clear db = []"

record state =
  caregiver_db :: "Caregiver store"
  shift_db :: "Shift store"
  fanout_db :: "ShiftFanoutState store"

section \<open>External collaborators (app/notifier.py, app/intent.py)\<close>

text \<open>
  The notifier and the intent classifier are not among the sources; they are parameters.
  A send either completes (\<open>True\<close>) or raises (\<open>False\<close>). The classifier maps the
  message body to an intent; the endpoint tests for ACCEPT and for DECLINE and treats
  every other value as unknown.
\<close>

record notifier =
  send_sms :: "string \<Rightarrow> string \<Rightarrow> bool"
  place_phone_call :: "string \<Rightarrow> string \<Rightarrow> bool"

datatype ShiftRequestMessageIntent = ACCEPT | DECLINE | UNKNOWN

datatype ContactChannel = SMS | CALL

text \<open>One dispatch: the channel, the phone number and the text.\<close>

type_synonym send = "ContactChannel \<times> string \<times> string"

datatype error = HTTPException nat string | ChannelSendFailure

section \<open>POST /shifts/{shift_id}/fanout (app/api.py, trigger_fanout)\<close>

text \<open>
  Python truth value of a \<open>str | None\<close>: \<open>None\<close> and the empty string are false
  (line 93 tests \<open>if state.claimed_caregiver_id:\<close>).
\<close>

definition truthy :: "string option \<Rightarrow> bool" where
  "truthy x = (case x of None \<Rightarrow> False | Some s \<Rightarrow> s \<noteq> [])"

text \<open>Lines 97-100: the eligible caregivers, in the order of \<open>caregiver_db.all()\<close>.\<close>

definition eligible_caregivers :: "Caregiver store \<Rightarrow> Shift \<Rightarrow> Caregiver list" where
  "eligible_caregivers cdb shift =
     filter (\<lambda>c. role c = role_required shift) (all_values cdb)"

text \<open>
  The loops of lines 106-109 and 120-125 have one shape: for every eligible caregiver
  whose id is not yet in the notified list, append the id and create the send task for
  the caregiver's phone. The membership test sees the ids appended earlier in the same
  loop. The result is the notified list and the phones of the tasks, in order.
\<close>

fun notify_loop :: "Caregiver list \<Rightarrow> string list \<Rightarrow> string list \<Rightarrow> string list \<times> string list" where
  "notify_loop [] ids tasks = (ids, tasks)"
| "notify_loop (c # cs) ids tasks =
     (if c_id c \<notin> set ids
      then notify_loop cs (ids @ [c_id c]) (tasks @ [phone c])
      else notify_loop cs ids tasks)"

definition sms_text :: "Shift \<Rightarrow> string" where
  "sms_text shift = ''New shift available! ID: '' @ s_id shift"

definition call_text :: "Shift \<Rightarrow> string" where
  "call_text shift = ''Urgent: Shift available! ID: '' @ s_id shift"

text \<open>
  \<open>await asyncio.gather(*tasks)\<close> starts every task and raises if one of them raises;
  the other tasks are not cancelled.
\<close>

definition gather :: "(string \<Rightarrow> string \<Rightarrow> bool) \<Rightarrow> string \<Rightarrow> string list \<Rightarrow> bool" where
  "gather snd_fn text phones = list_all (\<lambda>p. snd_fn p text) phones"

text \<open>
  Lines 85-90: get or create the fanout state. \<open>t_create\<close> is the clock read of line 87.
\<close>

definition get_or_create :: "state \<Rightarrow> string \<Rightarrow> int \<Rightarrow> ShiftFanoutState \<times> state" where
  "get_or_create db k t_create =
     (case get (fanout_db db) k of
        None \<Rightarrow>
          (let st = new_fanout_state k t_create
           in (st, db\<lparr>fanout_db := put (fanout_db db) k st\<rparr>))
      | Some st \<Rightarrow> (st, db))"

text \<open>
  Lines 115-132: the escalation check and the call round, on a state whose SMS round is
  done. \<open>t_check\<close> is the clock read of line 116. Line 118 sets the flag and line 124
  appends on the stored object, so both are in the store also when the gather of line 128
  raises and line 130 is not reached.
\<close>

definition escalation :: "notifier \<Rightarrow> int \<Rightarrow> state \<Rightarrow> string \<Rightarrow> Shift \<Rightarrow> Caregiver list \<Rightarrow>
    ShiftFanoutState \<Rightarrow> (error + ShiftFanoutState) \<times> send list \<times> state" where
  "escalation nt t_check db k shift eligible st =
     (if t_check - started_at st \<ge> ten_minutes \<and> \<not> escalated_to_call st
      then
        (let (call_ids, call_tasks) =
               notify_loop eligible (call_notified_caregiver_ids st) [];
             st' = st\<lparr>escalated_to_call := True, call_notified_caregiver_ids := call_ids\<rparr>;
             db' = db\<lparr>fanout_db := put (fanout_db db) k st'\<rparr>;
             calls = map (\<lambda>p. (CALL, p, call_text shift)) call_tasks
         in if call_tasks \<noteq> [] \<and> \<not> gather (place_phone_call nt) (call_text shift) call_tasks
            then (Inl ChannelSendFailure, calls, db')
            else (Inr st', calls, db'))
      else (Inr st, [], db))"

text \<open>
  The endpoint. The result is the returned state or the exception, the sends that were
  issued, and the stores afterwards. \<open>t_create\<close> and \<open>t_check\<close> are the two clock reads.
  The appends of line 108 are on the stored object, so they are in the store also when the
  gather of line 112 raises and line 113 is not reached; when the loop appended nothing
  the state is the stored one and nothing is written.
\<close>

definition trigger_fanout :: "notifier \<Rightarrow> int \<Rightarrow> int \<Rightarrow> state \<Rightarrow> string \<Rightarrow>
    (error + ShiftFanoutState) \<times> send list \<times> state" where
  "trigger_fanout nt t_create t_check db k =
     (case get (shift_db db) k of
        None \<Rightarrow> (Inl (HTTPException 404 ''Shift not found''), [], db)
      | Some shift \<Rightarrow>
          (let (st, db1) = get_or_create db k t_create
           in if truthy (claimed_caregiver_id st) then (Inr st, [], db1)
              else
                (let eligible = eligible_caregivers (caregiver_db db1) shift;
                     (sms_ids, sms_tasks) =
                        notify_loop eligible (sms_notified_caregiver_ids st) [];
                     st1 = st\<lparr>sms_notified_caregiver_ids := sms_ids\<rparr>;
                     smss = map (\<lambda>p. (SMS, p, sms_text shift)) sms_tasks
                 in if sms_tasks \<noteq> []
                    then
                      (let db2 = db1\<lparr>fanout_db := put (fanout_db db1) k st1\<rparr>
                       in if \<not> gather (send_sms nt) (sms_text shift) sms_tasks
                          then (Inl ChannelSendFailure, smss, db2)
                          else
                            (case escalation nt t_check db2 k shift eligible st1 of
                               (r, calls, db3) \<Rightarrow> (r, smss @ calls, db3)))
                    else escalation nt t_check db1 k shift eligible st1)))"

section \<open>POST /messages/inbound (app/api.py, receive_message)\<close>

text \<open>
  The awaited classifier call of line 158 is the only suspension point, and everything
  after it runs without one, so a request is one step on the stores. The result is the
  response or the exception, the bodies handed to the classifier, and the stores
  afterwards. \<open>now\<close> is the clock read of line 165. Lines 162-166 are the get-or-create of
  lines 85-90, under the id of the shift. Line 181 assigns on the stored object, the one
  held under the key of the message, and line 182 puts it under its id. \<open>next(..., None)\<close> over \<open>caregiver_db.all()\<close> is
  the first caregiver with the sender's phone.
\<close>

definition receive_message :: "(string \<Rightarrow> ShiftRequestMessageIntent) \<Rightarrow> int \<Rightarrow> state \<Rightarrow>
    InboundMessage \<Rightarrow> (error + ShiftClaimResponse) \<times> string list \<times> state" where
  "receive_message classify now db msg =
     (case find (\<lambda>c. phone c = from_phone msg) (all_values (caregiver_db db)) of
        None \<Rightarrow> (Inl (HTTPException 404 ''Caregiver not found''), [], db)
      | Some caregiver \<Rightarrow>
          (case get (shift_db db) (msg_shift_id msg) of
             None \<Rightarrow> (Inl (HTTPException 404 ''Shift not found''), [], db)
           | Some shift \<Rightarrow>
               if role_required shift \<noteq> role caregiver
               then (Inr \<lparr>success = False, message = ''Not eligible for this shift role'',
                          resp_shift_id = s_id shift,
                          claimed_by = claimed_by_caregiver_id shift\<rparr>, [], db)
               else
                 (let intent = classify (body msg)
                  in if intent = ACCEPT
                     then
                       (let (fanout_state, db1) = get_or_create db (s_id shift) now
                        in if claimed_caregiver_id fanout_state \<noteq> None
                           then (Inr \<lparr>success = False, message = ''Shift already claimed'',
                                      resp_shift_id = s_id shift,
                                      claimed_by = claimed_caregiver_id fanout_state\<rparr>,
                                 [body msg], db1)
                           else
                             (let fanout_state' =
                                    fanout_state\<lparr>claimed_caregiver_id := Some (c_id caregiver)\<rparr>;
                                  db2 = db1\<lparr>fanout_db :=
                                            put (fanout_db db1) (s_id shift) fanout_state'\<rparr>;
                                  shift' =
                                    shift\<lparr>claimed_by_caregiver_id := Some (c_id caregiver)\<rparr>;
                                  db3 = db2\<lparr>shift_db :=
                                            put (put (shift_db db2) (msg_shift_id msg) shift')
                                              (s_id shift) shift'\<rparr>
                              in (Inr \<lparr>success = True, message = ''Shift successfully claimed!'',
                                       resp_shift_id = s_id shift,
                                       claimed_by = Some (c_id caregiver)\<rparr>,
                                  [body msg], db3)))
                     else if intent = DECLINE
                     then (Inr \<lparr>success = False, message = ''Shift declined'',
                                resp_shift_id = s_id shift,
                                claimed_by = claimed_by_caregiver_id shift\<rparr>, [body msg], db)
                     else (Inr \<lparr>success = False, message = ''Intent unknown'',
                                resp_shift_id = s_id shift,
                                claimed_by = claimed_by_caregiver_id shift\<rparr>, [body msg], db))))"

section \<open>Load of the sample data, operations, runs\<close>

text \<open>
  Lines 34-40 of \<open>load_sample_data\<close>, on the parsed caregivers and shifts of the JSON
  file: every record is stored under its own id. The stores are empty before.
\<close>

definition load_sample_data :: "Caregiver list \<Rightarrow> Shift list \<Rightarrow> state" where
  "load_sample_data caregivers shifts =
     \<lparr>caregiver_db = foldl (\<lambda>db c. put db (c_id c) c) [] caregivers,
      shift_db = foldl (\<lambda>db s. put db (s_id s) s) [] shifts,
      fanout_db = []\<rparr>"

text \<open>
  A request to one of the two endpoints, with what it takes from outside: the notifier
  and the two clock reads for a fanout trigger, the classifier and the clock read for an
  inbound message. A run is a sequence of requests, handled one after the other; a request
  that fails leaves the stores as they are at the point of failure.
\<close>

datatype request =
    Fanout notifier int int string
  | Inbound "string \<Rightarrow> ShiftRequestMessageIntent" int InboundMessage

fun step :: "state \<Rightarrow> request \<Rightarrow> state" where
  "step db (Fanout nt t_create t_check k) = snd (snd (trigger_fanout nt t_create t_check db k))"
| "step db (Inbound classify now msg) = snd (snd (receive_message classify now db msg))"

fun run :: "state \<Rightarrow> request list \<Rightarrow> state" where
  "run db [] = db"
| "run db (q # qs) = run (step db q) qs"

text \<open>The responses to a sequence of inbound messages, in arrival order.\<close>

fun receive_all :: "(string \<Rightarrow> ShiftRequestMessageIntent) \<Rightarrow> state \<Rightarrow>
    (int \<times> InboundMessage) list \<Rightarrow> (error + ShiftClaimResponse) list" where
  "receive_all classify db [] = []"
| "receive_all classify db ((now, msg) # ms) =
     (case receive_message classify now db msg of
        (r, bodies, db') \<Rightarrow> r # receive_all classify db' ms)"

section \<open>Notions of the specification\<close>

text \<open>
  The caregivers a notification loop appends and creates a task for, in order: those of
  the list whose id is neither in the notified list nor earlier in the list.
\<close>

fun to_notify :: "Caregiver list \<Rightarrow> string list \<Rightarrow> Caregiver list" where
  "to_notify [] ids = []"
| "to_notify (c # cs) ids =
     (if c_id c \<notin> set ids then c # to_notify cs (ids @ [c_id c]) else to_notify cs ids)"

text \<open>
  The fanout for shift \<open>k\<close> is not started or active: there is no fanout state, or line 93
  does not take it as claimed.
\<close>

definition unclaimed :: "state \<Rightarrow> string \<Rightarrow> bool" where
  "unclaimed db k =
     (case get (fanout_db db) k of
        None \<Rightarrow> True
      | Some st \<Rightarrow> \<not> truthy (claimed_caregiver_id st))"

text \<open>Every shift is stored under its own id, as \<open>load_sample_data\<close> and the tests store it.\<close>

definition keyed_by_id :: "Shift store \<Rightarrow> bool" where
  "keyed_by_id db = list_all (\<lambda>(k, sh). s_id sh = k) db"

text \<open>Whether a dispatch completes with the given notifier.\<close>

fun send_ok :: "notifier \<Rightarrow> send \<Rightarrow> bool" where
  "send_ok nt (SMS, p, text) = send_sms nt p text"
| "send_ok nt (CALL, p, text) = place_phone_call nt p text"

fun is_call :: "send \<Rightarrow> bool" where
  "is_call (ch, p, text) = (ch = CALL)"

text \<open>
  What an inbound message for shift \<open>k\<close> must be to reach the claim resolver: the sender
  is a known caregiver, the shift exists and requires the sender's role, and the classifier
  takes the body as ACCEPT.
\<close>

definition accept_attempt :: "(string \<Rightarrow> ShiftRequestMessageIntent) \<Rightarrow> state \<Rightarrow> string \<Rightarrow>
    InboundMessage \<Rightarrow> bool" where
  "accept_attempt classify db k m \<longleftrightarrow>
     msg_shift_id m = k \<and> classify (body m) = ACCEPT \<and>
     (case find (\<lambda>c. phone c = from_phone m) (all_values (caregiver_db db)) of
        None \<Rightarrow> False
      | Some cg \<Rightarrow>
          (case get (shift_db db) k of
             None \<Rightarrow> False
           | Some sh \<Rightarrow> role_required sh = role cg))"

text \<open>
  The invariants the specification gives for a fanout state over its lifetime: the shift
  and \<open>started_at\<close> are fixed, the notified lists only grow, the escalation flag stays set
  and a claim that is set stays as it is.
\<close>

definition later :: "ShiftFanoutState \<Rightarrow> ShiftFanoutState \<Rightarrow> bool" where
  "later st st' \<longleftrightarrow>
     shift_id st' = shift_id st \<and> started_at st' = started_at st \<and>
     prefix (sms_notified_caregiver_ids st) (sms_notified_caregiver_ids st') \<and>
     prefix (call_notified_caregiver_ids st) (call_notified_caregiver_ids st') \<and>
     (escalated_to_call st \<longrightarrow> escalated_to_call st') \<and>
     (claimed_caregiver_id st \<noteq> None \<longrightarrow> claimed_caregiver_id st' = claimed_caregiver_id st)"

text \<open>
  A request that is not a trigger for shift \<open>k\<close> whose clock read at the escalation check
  is 10 minutes or more after \<open>T\<close>.
\<close>

fun before_boundary :: "string \<Rightarrow> int \<Rightarrow> request \<Rightarrow> bool" where
  "before_boundary k T (Fanout nt t_create t_check k') = (k' \<noteq> k \<or> t_check - T < ten_minutes)"
| "before_boundary k T (Inbound classify now msg) = True"

text \<open>
  Role-based exclusion as an invariant of the stores: no caregiver of the pool whose role
  differs from the role a shift requires has the id in a notified list of that shift.
\<close>

definition role_excluded :: "state \<Rightarrow> bool" where
  "role_excluded db \<longleftrightarrow>
     (\<forall>k sh st c. get (shift_db db) k = Some sh \<longrightarrow> get (fanout_db db) k = Some st \<longrightarrow>
        c \<in> set (all_values (caregiver_db db)) \<longrightarrow> role c \<noteq> role_required sh \<longrightarrow>
        c_id c \<notin> set (sms_notified_caregiver_ids st) \<and>
        c_id c \<notin> set (call_notified_caregiver_ids st))"

section \<open>The fixture of tests/test_fanout.py\<close>

definition alice :: Caregiver where
  "alice = \<lparr>c_id = ''c1'', c_name = ''Alice'', role = ''RN'', phone = ''+15551111''\<rparr>"

definition bob :: Caregiver where
  "bob = \<lparr>c_id = ''c2'', c_name = ''Bob'', role = ''LPN'', phone = ''+15552222''\<rparr>"

definition carol :: Caregiver where
  "carol = \<lparr>c_id = ''c3'', c_name = ''Carol'', role = ''RN'', phone = ''+15553333''\<rparr>"

definition shift_s1 :: Shift where
  "shift_s1 = \<lparr>s_id = ''s1'', organization_id = ''org1'', role_required = ''RN'',
               start_time = 0, end_time = 28800000000, claimed_by_caregiver_id = None\<rparr>"

definition clean_db :: state where
  "clean_db = \<lparr>caregiver_db = [(''c1'', alice), (''c2'', bob), (''c3'', carol)],
               shift_db = [(''s1'', shift_s1)], fanout_db = []\<rparr>"

text \<open>A notifier whose sends all complete, and one whose SMS to Alice raises.\<close>

definition reliable :: notifier where
  "reliable = \<lparr>send_sms = (\<lambda>p text. True), place_phone_call = (\<lambda>p text. True)\<rparr>"

definition alice_unreachable :: notifier where
  "alice_unreachable =
     \<lparr>send_sms = (\<lambda>p text. p \<noteq> ''+15551111''), place_phone_call = (\<lambda>p text. True)\<rparr>"

text \<open>A stand-in for the classifier on the bodies the tests send.\<close>

definition keyword_intent :: "string \<Rightarrow> ShiftRequestMessageIntent" where
  "keyword_intent b =
     (if b = ''Yes'' \<or> b = ''Accept please'' \<or> b = ''Yes I can do it'' then ACCEPT
      else if b = ''No thank you'' then DECLINE
      else UNKNOWN)"

definition msg_from :: "Caregiver \<Rightarrow> string \<Rightarrow> InboundMessage" where
  "msg_from c b = \<lparr>from_phone = phone c, msg_shift_id = ''s1'', body = b\<rparr>"

text \<open>The stores after a first fanout at time 0, and after Alice's accept that follows it.\<close>

definition fanned_out :: ShiftFanoutState where
  "fanned_out = \<lparr>shift_id = ''s1'', started_at = 0,
                 sms_notified_caregiver_ids = [''c1'', ''c3''],
                 call_notified_caregiver_ids = [], claimed_caregiver_id = None,
                 escalated_to_call = False\<rparr>"

definition fanout_started_db :: state where
  "fanout_started_db = clean_db\<lparr>fanout_db := [(''s1'', fanned_out)]\<rparr>"

definition alice_claimed_db :: state where
  "alice_claimed_db =
     clean_db\<lparr>shift_db := [(''s1'', shift_s1\<lparr>claimed_by_caregiver_id := Some ''c1''\<rparr>)],
              fanout_db := [(''s1'', fanned_out\<lparr>claimed_caregiver_id := Some ''c1''\<rparr>)]\<rparr>"

text \<open>
  A caregiver whose id is the empty string, which \<open>id: str\<close> admits, in the pool of the
  fixture; and the stores after this caregiver's accept at time 0, when no fanout was
  triggered before.
\<close>

definition dan :: Caregiver where
  "dan = \<lparr>c_id = '''', c_name = ''Dan'', role = ''RN'', phone = ''+15554444''\<rparr>"

definition dan_db :: state where
  "dan_db = clean_db\<lparr>caregiver_db := put (caregiver_db clean_db) (c_id dan) dan\<rparr>"

definition dan_claimed_db :: state where
  "dan_claimed_db =
     dan_db\<lparr>shift_db := [(''s1'', shift_s1\<lparr>claimed_by_caregiver_id := Some ''''\<rparr>)],
            fanout_db := [(''s1'', (new_fanout_state ''s1'' 0)\<lparr>claimed_caregiver_id := Some ''''\<rparr>)]\<rparr>"

text \<open>The fanout state and the stores after the trigger at 10 minutes, nobody having claimed.\<close>

definition called_out :: ShiftFanoutState where
  "called_out = fanned_out\<lparr>call_notified_caregiver_ids := [''c1'', ''c3''],
                           escalated_to_call := True\<rparr>"

definition escalated_db :: state where
  "escalated_db = clean_db\<lparr>fanout_db := [(''s1'', called_out)]\<rparr>"

text \<open>
  A fourth caregiver with the role of the shift, put into the pool after the escalation;
  and the same stores after Carol's accept.
\<close>

definition dave :: Caregiver where
  "dave = \<lparr>c_id = ''c4'', c_name = ''Dave'', role = ''RN'', phone = ''+15555555''\<rparr>"

definition late_pool_db :: state where
  "late_pool_db =
     escalated_db\<lparr>caregiver_db := put (caregiver_db escalated_db) (c_id dave) dave\<rparr>"

definition late_claimed_db :: state where
  "late_claimed_db =
     late_pool_db\<lparr>shift_db := [(''s1'', shift_s1\<lparr>claimed_by_caregiver_id := Some ''c3''\<rparr>)],
                  fanout_db := [(''s1'', called_out\<lparr>claimed_caregiver_id := Some ''c3''\<rparr>)]\<rparr>"

text \<open>
  Dave joins the pool after the first fanout, nobody having claimed; a notifier whose SMS
  to Dave raises, and one whose call to Carol raises.
\<close>

definition joined_db :: state where
  "joined_db =
     fanout_started_db\<lparr>caregiver_db := put (caregiver_db fanout_started_db) (c_id dave) dave\<rparr>"

definition dave_unreachable :: notifier where
  "dave_unreachable =
     \<lparr>send_sms = (\<lambda>p text. p \<noteq> ''+15555555''), place_phone_call = (\<lambda>p text. True)\<rparr>"

definition carol_no_answer :: notifier where
  "carol_no_answer =
     \<lparr>send_sms = (\<lambda>p text. True), place_phone_call = (\<lambda>p text. p \<noteq> ''+15553333'')\<rparr>"

section \<open>Stores and notification loops\<close>

lemma get_put: "get (put db k v) k' = (if k' = k then Some v else get db k')"
  by (induction db) (auto simp: get_def)

lemma put_same: "get db k = Some v \<Longrightarrow> put db k v = db"
  by (induction db) (auto simp: get_def split: if_splits)

lemma put_put: "put (put db k v) k w = put db k w"
  by (induction db) auto

lemma notify_loop_to_notify:
  "notify_loop cs ids tasks =
     (ids @ map c_id (to_notify cs ids), tasks @ map phone (to_notify cs ids))"
  by (induction cs arbitrary: ids tasks) auto

lemma to_notify_subset: "set (to_notify cs ids) \<subseteq> set cs"
  by (induction cs arbitrary: ids) auto

lemma to_notify_fresh: "c \<in> set (to_notify cs ids) \<Longrightarrow> c_id c \<notin> set ids"
proof (induction cs arbitrary: ids)
  case Nil
  then show ?case by simp
next
  case (Cons a cs)
  show ?case
  proof (cases "c_id a \<in> set ids")
    case True
    with Cons show ?thesis by simp
  next
    case False
    with Cons.prems have "c = a \<or> c \<in> set (to_notify cs (ids @ [c_id a]))" by simp
    then show ?thesis
    proof
      assume "c = a"
      with False show ?thesis by simp
    next
      assume "c \<in> set (to_notify cs (ids @ [c_id a]))"
      from Cons.IH [OF this] show ?thesis by simp
    qed
  qed
qed

lemma to_notify_covers:
  "c \<in> set cs \<Longrightarrow> c_id c \<in> set ids \<union> c_id ` set (to_notify cs ids)"
proof (induction cs arbitrary: ids)
  case Nil
  then show ?case by simp
next
  case (Cons a cs)
  show ?case
  proof (cases "c = a")
    case True
    then show ?thesis by auto
  next
    case False
    with Cons.prems have "c \<in> set cs" by simp
    from Cons.IH [OF this, of ids] Cons.IH [OF this, of "ids @ [c_id a]"]
    show ?thesis by auto
  qed
qed

lemma to_notify_none: "c_id ` set cs \<subseteq> set ids \<Longrightarrow> to_notify cs ids = []"
  by (induction cs arbitrary: ids) auto

lemma to_notify_again: "to_notify cs (ids @ map c_id (to_notify cs ids)) = []"
  by (rule to_notify_none) (use to_notify_covers in fastforce)

lemma to_notify_distinct:
  "distinct (map c_id cs) \<Longrightarrow> to_notify cs ids = filter (\<lambda>c. c_id c \<notin> set ids) cs"
proof (induction cs arbitrary: ids)
  case Nil
  then show ?case by simp
next
  case (Cons a cs)
  from Cons.prems have "c_id a \<notin> c_id ` set cs" by simp
  then have na: "c_id x \<noteq> c_id a" if "x \<in> set cs" for x
    using that by (metis imageI)
  have "filter (\<lambda>c. c_id c \<notin> set (ids @ [c_id a])) cs = filter (\<lambda>c. c_id c \<notin> set ids) cs"
    by (rule filter_cong) (auto dest: na)
  with Cons show ?case by simp
qed

lemma get_or_create_frame:
  "get_or_create db k t = (st, db1) \<Longrightarrow>
     caregiver_db db1 = caregiver_db db \<and> shift_db db1 = shift_db db \<and>
     get (fanout_db db1) k = Some st \<and>
     (\<forall>k'. k' \<noteq> k \<longrightarrow> get (fanout_db db1) k' = get (fanout_db db) k')"
  by (auto simp: get_or_create_def get_put Let_def split: option.splits)

lemma get_or_create_present:
  "get (fanout_db db) k = Some st \<Longrightarrow> get_or_create db k t = (st, db)"
  by (simp add: get_or_create_def)

lemma get_or_create_absent:
  "get (fanout_db db) k = None \<Longrightarrow>
     get_or_create db k t =
       (new_fanout_state k t, db\<lparr>fanout_db := put (fanout_db db) k (new_fanout_state k t)\<rparr>)"
  by (simp add: get_or_create_def Let_def)

lemma escalation_normal_form:
  "escalation nt t1 db k sh el st =
     (if ten_minutes \<le> t1 - started_at st \<and> \<not> escalated_to_call st
      then
        (if list_all (\<lambda>c. place_phone_call nt (phone c) (call_text sh))
              (to_notify el (call_notified_caregiver_ids st))
         then Inr (st\<lparr>escalated_to_call := True,
                       call_notified_caregiver_ids := call_notified_caregiver_ids st @
                         map c_id (to_notify el (call_notified_caregiver_ids st))\<rparr>)
         else Inl ChannelSendFailure,
         map (\<lambda>c. (CALL, phone c, call_text sh)) (to_notify el (call_notified_caregiver_ids st)),
         db\<lparr>fanout_db := put (fanout_db db) k
              (st\<lparr>escalated_to_call := True,
                   call_notified_caregiver_ids := call_notified_caregiver_ids st @
                     map c_id (to_notify el (call_notified_caregiver_ids st))\<rparr>)\<rparr>)
      else (Inr st, [], db))"
  by (simp add: escalation_def notify_loop_to_notify gather_def list_all_iff comp_def Let_def)

lemma trigger_fanout_not_found:
  "get (shift_db db) k = None \<Longrightarrow>
     trigger_fanout nt t0 t1 db k = (Inl (HTTPException 404 ''Shift not found''), [], db)"
  by (simp add: trigger_fanout_def)

lemma trigger_fanout_claimed:
  "get (shift_db db) k = Some sh \<Longrightarrow> get (fanout_db db) k = Some st \<Longrightarrow>
   truthy (claimed_caregiver_id st) \<Longrightarrow>
     trigger_fanout nt t0 t1 db k = (Inr st, [], db)"
  by (simp add: trigger_fanout_def get_or_create_present)

lemma trigger_fanout_sms_failure:
  assumes "get (shift_db db) k = Some sh"
    and "get_or_create db k t0 = (st, db1)"
    and "\<not> truthy (claimed_caregiver_id st)"
    and "ns = to_notify (eligible_caregivers (caregiver_db db) sh) (sms_notified_caregiver_ids st)"
    and "\<not> list_all (\<lambda>c. send_sms nt (phone c) (sms_text sh)) ns"
  shows "trigger_fanout nt t0 t1 db k =
           (Inl ChannelSendFailure, map (\<lambda>c. (SMS, phone c, sms_text sh)) ns,
            db1\<lparr>fanout_db := put (fanout_db db1) k
               (st\<lparr>sms_notified_caregiver_ids :=
                     sms_notified_caregiver_ids st @ map c_id ns\<rparr>)\<rparr>)"
proof -
  from assms(5) have "ns \<noteq> []" by auto
  moreover have "caregiver_db db1 = caregiver_db db"
    using get_or_create_frame [OF assms(2)] by simp
  ultimately show ?thesis
    using assms
    by (simp add: trigger_fanout_def notify_loop_to_notify gather_def list_all_iff
        comp_def Let_def)
qed

lemma trigger_fanout_sms_done:
  assumes "get (shift_db db) k = Some sh"
    and "get_or_create db k t0 = (st, db1)"
    and "\<not> truthy (claimed_caregiver_id st)"
    and "ns = to_notify (eligible_caregivers (caregiver_db db) sh) (sms_notified_caregiver_ids st)"
    and "list_all (\<lambda>c. send_sms nt (phone c) (sms_text sh)) ns"
    and "st1 = st\<lparr>sms_notified_caregiver_ids := sms_notified_caregiver_ids st @ map c_id ns\<rparr>"
    and "escalation nt t1 (db1\<lparr>fanout_db := put (fanout_db db1) k st1\<rparr>) k sh
           (eligible_caregivers (caregiver_db db) sh) st1 = (r, calls, db3)"
  shows "trigger_fanout nt t0 t1 db k =
           (r, map (\<lambda>c. (SMS, phone c, sms_text sh)) ns @ calls, db3)"
proof -
  have frame: "caregiver_db db1 = caregiver_db db" "get (fanout_db db1) k = Some st"
    using get_or_create_frame [OF assms(2)] by simp_all
  show ?thesis
  proof (cases "ns = []")
    case True
    then have "st1 = st" using assms(6) by simp
    moreover from this frame have "db1\<lparr>fanout_db := put (fanout_db db1) k st1\<rparr> = db1"
      by (simp add: put_same)
    ultimately show ?thesis
      using assms True frame
      by (simp add: trigger_fanout_def notify_loop_to_notify Let_def)
  next
    case False
    then show ?thesis
      using assms frame
      by (simp add: trigger_fanout_def notify_loop_to_notify gather_def list_all_iff
          comp_def Let_def)
  qed
qed

lemma trigger_fanout_unclaimed:
  assumes "get (shift_db db) k = Some sh"
    and "get_or_create db k t0 = (st, db1)"
    and "\<not> truthy (claimed_caregiver_id st)"
  shows "trigger_fanout nt t0 t1 db k =
     (let el = eligible_caregivers (caregiver_db db) sh;
          ns = to_notify el (sms_notified_caregiver_ids st);
          nc = to_notify el (call_notified_caregiver_ids st);
          st1 = st\<lparr>sms_notified_caregiver_ids := sms_notified_caregiver_ids st @ map c_id ns\<rparr>;
          st3 = st1\<lparr>escalated_to_call := True,
                    call_notified_caregiver_ids := call_notified_caregiver_ids st @ map c_id nc\<rparr>;
          smss = map (\<lambda>c. (SMS, phone c, sms_text sh)) ns;
          calls = map (\<lambda>c. (CALL, phone c, call_text sh)) nc
      in if \<not> list_all (\<lambda>c. send_sms nt (phone c) (sms_text sh)) ns
         then (Inl ChannelSendFailure, smss, db1\<lparr>fanout_db := put (fanout_db db1) k st1\<rparr>)
         else if ten_minutes \<le> t1 - started_at st \<and> \<not> escalated_to_call st
         then (if list_all (\<lambda>c. place_phone_call nt (phone c) (call_text sh)) nc
               then Inr st3 else Inl ChannelSendFailure,
               smss @ calls, db1\<lparr>fanout_db := put (fanout_db db1) k st3\<rparr>)
         else (Inr st1, smss, db1\<lparr>fanout_db := put (fanout_db db1) k st1\<rparr>))"
proof -
  let ?el = "eligible_caregivers (caregiver_db db) sh"
  let ?ns = "to_notify ?el (sms_notified_caregiver_ids st)"
  let ?st1 = "st\<lparr>sms_notified_caregiver_ids := sms_notified_caregiver_ids st @ map c_id ?ns\<rparr>"
  show ?thesis
  proof (cases "list_all (\<lambda>c. send_sms nt (phone c) (sms_text sh)) ?ns")
    case False
    from trigger_fanout_sms_failure [OF assms refl False] False
    show ?thesis by (simp add: Let_def)
  next
    case True
    obtain r calls db3 where esc:
      "escalation nt t1 (db1\<lparr>fanout_db := put (fanout_db db1) k ?st1\<rparr>) k sh ?el ?st1 =
         (r, calls, db3)"
      by (metis prod_cases3)
    from trigger_fanout_sms_done [OF assms refl True refl esc]
    have "trigger_fanout nt t0 t1 db k =
            (r, map (\<lambda>c. (SMS, phone c, sms_text sh)) ?ns @ calls, db3)" .
    moreover from esc have "(r, calls, db3) =
        (if ten_minutes \<le> t1 - started_at st \<and> \<not> escalated_to_call st
         then (if list_all (\<lambda>c. place_phone_call nt (phone c) (call_text sh))
                    (to_notify ?el (call_notified_caregiver_ids st))
               then Inr (?st1\<lparr>escalated_to_call := True,
                      call_notified_caregiver_ids := call_notified_caregiver_ids st @
                        map c_id (to_notify ?el (call_notified_caregiver_ids st))\<rparr>)
               else Inl ChannelSendFailure,
               map (\<lambda>c. (CALL, phone c, call_text sh))
                 (to_notify ?el (call_notified_caregiver_ids st)),
               db1\<lparr>fanout_db := put (fanout_db db1) k
                 (?st1\<lparr>escalated_to_call := True,
                      call_notified_caregiver_ids := call_notified_caregiver_ids st @
                        map c_id (to_notify ?el (call_notified_caregiver_ids st))\<rparr>)\<rparr>)
         else (Inr ?st1, [], db1\<lparr>fanout_db := put (fanout_db db1) k ?st1\<rparr>))"
      by (auto simp: escalation_normal_form put_put)
    ultimately show ?thesis
      using True by (auto simp: Let_def)
  qed
qed

lemma receive_message_unknown_caregiver:
  "find (\<lambda>c. phone c = from_phone m) (all_values (caregiver_db db)) = None \<Longrightarrow>
     receive_message classify now db m =
       (Inl (HTTPException 404 ''Caregiver not found''), [], db)"
  by (simp add: receive_message_def)

lemma receive_message_shift_not_found:
  "find (\<lambda>c. phone c = from_phone m) (all_values (caregiver_db db)) = Some cg \<Longrightarrow>
   get (shift_db db) (msg_shift_id m) = None \<Longrightarrow>
     receive_message classify now db m = (Inl (HTTPException 404 ''Shift not found''), [], db)"
  by (simp add: receive_message_def)

lemma receive_message_ineligible:
  "find (\<lambda>c. phone c = from_phone m) (all_values (caregiver_db db)) = Some cg \<Longrightarrow>
   get (shift_db db) (msg_shift_id m) = Some sh \<Longrightarrow> role_required sh \<noteq> role cg \<Longrightarrow>
     receive_message classify now db m =
       (Inr \<lparr>success = False, message = ''Not eligible for this shift role'',
              resp_shift_id = s_id sh, claimed_by = claimed_by_caregiver_id sh\<rparr>, [], db)"
  by (simp add: receive_message_def)

lemma receive_message_not_accept:
  "find (\<lambda>c. phone c = from_phone m) (all_values (caregiver_db db)) = Some cg \<Longrightarrow>
   get (shift_db db) (msg_shift_id m) = Some sh \<Longrightarrow> role_required sh = role cg \<Longrightarrow>
   classify (body m) \<noteq> ACCEPT \<Longrightarrow>
     receive_message classify now db m =
       (Inr \<lparr>success = False,
              message = (if classify (body m) = DECLINE then ''Shift declined''
                         else ''Intent unknown''),
              resp_shift_id = s_id sh, claimed_by = claimed_by_caregiver_id sh\<rparr>,
        [body m], db)"
  by (simp add: receive_message_def)

lemma receive_message_already_claimed:
  "find (\<lambda>c. phone c = from_phone m) (all_values (caregiver_db db)) = Some cg \<Longrightarrow>
   get (shift_db db) (msg_shift_id m) = Some sh \<Longrightarrow> role_required sh = role cg \<Longrightarrow>
   classify (body m) = ACCEPT \<Longrightarrow> get (fanout_db db) (s_id sh) = Some st \<Longrightarrow>
   claimed_caregiver_id st = Some w \<Longrightarrow>
     receive_message classify now db m =
       (Inr \<lparr>success = False, message = ''Shift already claimed'',
              resp_shift_id = s_id sh, claimed_by = Some w\<rparr>, [body m], db)"
  by (simp add: receive_message_def get_or_create_present)

lemma receive_message_win:
  assumes "find (\<lambda>c. phone c = from_phone m) (all_values (caregiver_db db)) = Some cg"
    and "get (shift_db db) (msg_shift_id m) = Some sh" and "role_required sh = role cg"
    and "classify (body m) = ACCEPT"
    and "case get (fanout_db db) (s_id sh) of None \<Rightarrow> True
         | Some st \<Rightarrow> claimed_caregiver_id st = None"
  shows "receive_message classify now db m =
       (Inr \<lparr>success = True, message = ''Shift successfully claimed!'',
              resp_shift_id = s_id sh, claimed_by = Some (c_id cg)\<rparr>, [body m],
        db\<lparr>fanout_db := put (fanout_db db) (s_id sh)
              ((case get (fanout_db db) (s_id sh) of
                  None \<Rightarrow> new_fanout_state (s_id sh) now | Some st \<Rightarrow> st)
               \<lparr>claimed_caregiver_id := Some (c_id cg)\<rparr>),
            shift_db := put (put (shift_db db) (msg_shift_id m)
                (sh\<lparr>claimed_by_caregiver_id := Some (c_id cg)\<rparr>)) (s_id sh)
              (sh\<lparr>claimed_by_caregiver_id := Some (c_id cg)\<rparr>)\<rparr>)"
proof (cases "get (fanout_db db) (s_id sh)")
  case None
  with assms show ?thesis
    by (simp add: receive_message_def get_or_create_absent put_put new_fanout_state_def Let_def)
next
  case (Some st)
  with assms show ?thesis
    by (simp add: receive_message_def get_or_create_present Let_def)
qed

section \<open>Effects of the two endpoints\<close>

lemma later_refl: "later st st"
  by (simp add: later_def)

lemma later_trans: "later a b \<Longrightarrow> later b c \<Longrightarrow> later a c"
  by (auto simp: later_def)

lemma trigger_fanout_frame:
  "caregiver_db (snd (snd (trigger_fanout nt t0 t1 db k))) = caregiver_db db \<and>
   shift_db (snd (snd (trigger_fanout nt t0 t1 db k))) = shift_db db \<and>
   (\<forall>k'. k' \<noteq> k \<longrightarrow>
      get (fanout_db (snd (snd (trigger_fanout nt t0 t1 db k)))) k' = get (fanout_db db) k')"
proof (cases "get (shift_db db) k")
  case None
  then show ?thesis by (simp add: trigger_fanout_not_found)
next
  case (Some sh)
  obtain st db1 where goc: "get_or_create db k t0 = (st, db1)"
    by (cases "get_or_create db k t0")
  note fr = get_or_create_frame [OF goc]
  show ?thesis
  proof (cases "truthy (claimed_caregiver_id st)")
    case True
    with Some goc have "trigger_fanout nt t0 t1 db k = (Inr st, [], db1)"
      by (simp add: trigger_fanout_def)
    with fr show ?thesis by simp
  next
    case False
    show ?thesis
      unfolding trigger_fanout_unclaimed [OF Some goc False] Let_def
      using fr by (simp add: get_put)
  qed
qed

lemma trigger_fanout_summary:
  assumes "get (shift_db db) k = Some sh"
    and "get_or_create db k t0 = (st, db1)"
  shows "\<exists>st'. get (fanout_db (snd (snd (trigger_fanout nt t0 t1 db k)))) k = Some st' \<and>
          later st st' \<and> claimed_caregiver_id st' = claimed_caregiver_id st \<and>
          set (sms_notified_caregiver_ids st') \<subseteq> set (sms_notified_caregiver_ids st) \<union>
             c_id ` set (eligible_caregivers (caregiver_db db) sh) \<and>
          set (call_notified_caregiver_ids st') \<subseteq> set (call_notified_caregiver_ids st) \<union>
             c_id ` set (eligible_caregivers (caregiver_db db) sh) \<and>
          (escalated_to_call st' \<and> \<not> escalated_to_call st \<longrightarrow>
             ten_minutes \<le> t1 - started_at st) \<and>
          (call_notified_caregiver_ids st' \<noteq> call_notified_caregiver_ids st \<longrightarrow>
             \<not> escalated_to_call st) \<and>
          (\<forall>s. fst (trigger_fanout nt t0 t1 db k) = Inr s \<longrightarrow> s = st')"
proof -
  have g1: "get (fanout_db db1) k = Some st"
    using get_or_create_frame [OF assms(2)] by simp
  show ?thesis
  proof (cases "truthy (claimed_caregiver_id st)")
    case True
    with assms have "trigger_fanout nt t0 t1 db k = (Inr st, [], db1)"
      by (simp add: trigger_fanout_def)
    with g1 show ?thesis
      by (intro exI [of _ st]) (simp add: later_refl)
  next
    case False
    let ?el = "eligible_caregivers (caregiver_db db) sh"
    have sub: "c_id ` set (to_notify ?el ids) \<subseteq> c_id ` set ?el" for ids
      using to_notify_subset [of ?el ids] by blast
    show ?thesis
      unfolding trigger_fanout_unclaimed [OF assms False] Let_def
      using sub [of "sms_notified_caregiver_ids st"] sub [of "call_notified_caregiver_ids st"]
      by (auto simp: later_def get_put)
  qed
qed


lemma receive_message_cases:
  obtains (unchanged) r bodies where
      "receive_message classify now db m = (r, bodies, db)"
      "\<And>resp. r = Inr resp \<Longrightarrow> \<not> success resp"
  | (win) cg sh where
      "find (\<lambda>c. phone c = from_phone m) (all_values (caregiver_db db)) = Some cg"
      "get (shift_db db) (msg_shift_id m) = Some sh"
      "role_required sh = role cg" "classify (body m) = ACCEPT"
      "case get (fanout_db db) (s_id sh) of None \<Rightarrow> True
       | Some st \<Rightarrow> claimed_caregiver_id st = None"
      "receive_message classify now db m =
         (Inr \<lparr>success = True, message = ''Shift successfully claimed!'',
                resp_shift_id = s_id sh, claimed_by = Some (c_id cg)\<rparr>, [body m],
          db\<lparr>fanout_db := put (fanout_db db) (s_id sh)
                ((case get (fanout_db db) (s_id sh) of
                    None \<Rightarrow> new_fanout_state (s_id sh) now | Some st \<Rightarrow> st)
                 \<lparr>claimed_caregiver_id := Some (c_id cg)\<rparr>),
              shift_db := put (put (shift_db db) (msg_shift_id m)
                  (sh\<lparr>claimed_by_caregiver_id := Some (c_id cg)\<rparr>)) (s_id sh)
                (sh\<lparr>claimed_by_caregiver_id := Some (c_id cg)\<rparr>)\<rparr>)"
proof (cases "find (\<lambda>c. phone c = from_phone m) (all_values (caregiver_db db))")
  case None
  from receive_message_unknown_caregiver [of m db classify now, OF None] show ?thesis
    by (rule unchanged) simp
next
  case cg: (Some cg)
  show ?thesis
  proof (cases "get (shift_db db) (msg_shift_id m)")
    case None
    from receive_message_shift_not_found [of m db cg classify now, OF cg None] show ?thesis
      by (rule unchanged) simp
  next
    case sh: (Some sh)
    show ?thesis
    proof (cases "role_required sh = role cg")
      case False
      from receive_message_ineligible [of m db cg sh classify now, OF cg sh False] show ?thesis
        by (rule unchanged) simp
    next
      case role: True
      show ?thesis
      proof (cases "classify (body m) = ACCEPT")
        case False
        from receive_message_not_accept [of m db cg sh classify now, OF cg sh role False]
        show ?thesis
          by (rule unchanged) simp
      next
        case acc: True
        show ?thesis
        proof (cases "case get (fanout_db db) (s_id sh) of None \<Rightarrow> True
                       | Some st \<Rightarrow> claimed_caregiver_id st = None")
          case True
          from cg sh role acc True
            receive_message_win [of m db cg sh classify now, OF cg sh role acc True]
          show ?thesis by (rule win)
        next
          case False
          then obtain st w where "get (fanout_db db) (s_id sh) = Some st"
            "claimed_caregiver_id st = Some w"
            by (auto split: option.splits)
          from receive_message_already_claimed [of m db cg sh classify st w now, OF cg sh role acc this]
          show ?thesis
            by (rule unchanged) simp
        qed
      qed
    qed
  qed
qed

lemma step_caregiver_db: "caregiver_db (step db q) = caregiver_db db"
proof (cases q)
  case (Fanout nt t0 t1 k)
  then show ?thesis
    using trigger_fanout_frame [of nt t0 t1 db k] by simp
next
  case (Inbound classify now m)
  show ?thesis
    by (rule receive_message_cases [of classify now db m]) (simp_all add: Inbound)
qed

lemma run_caregiver_db: "caregiver_db (run db qs) = caregiver_db db"
  by (induction qs arbitrary: db) (simp_all add: step_caregiver_db)

lemma step_later:
  assumes "get (fanout_db db) k = Some st"
  shows "\<exists>st'. get (fanout_db (step db q)) k = Some st' \<and> later st st'"
proof (cases q)
  case (Fanout nt t0 t1 k')
  show ?thesis
  proof (cases "k' = k")
    case False
    then have "get (fanout_db (step db q)) k = get (fanout_db db) k"
      using trigger_fanout_frame [of nt t0 t1 db k'] Fanout by simp
    with assms show ?thesis by (auto simp: later_refl)
  next
    case True
    show ?thesis
    proof (cases "get (shift_db db) k")
      case None
      with assms True Fanout show ?thesis
        by (simp add: trigger_fanout_not_found later_refl)
    next
      case (Some sh)
      from trigger_fanout_summary [OF Some get_or_create_present [OF assms], of nt t0 t1]
      show ?thesis using True Fanout by auto
    qed
  qed
next
  case (Inbound classify now m)
  show ?thesis
  proof (rule receive_message_cases [of classify now db m])
    fix r bodies
    assume "receive_message classify now db m = (r, bodies, db)"
    with assms Inbound show ?thesis by (auto simp: later_refl)
  next
    fix cg :: Caregiver and sh :: Shift
    assume unc: "case get (fanout_db db) (s_id sh) of None \<Rightarrow> True
       | Some st \<Rightarrow> claimed_caregiver_id st = None"
      and res: "receive_message classify now db m =
         (Inr \<lparr>success = True, message = ''Shift successfully claimed!'',
                resp_shift_id = s_id sh, claimed_by = Some (c_id cg)\<rparr>, [body m],
          db\<lparr>fanout_db := put (fanout_db db) (s_id sh)
                ((case get (fanout_db db) (s_id sh) of
                    None \<Rightarrow> new_fanout_state (s_id sh) now | Some st \<Rightarrow> st)
                 \<lparr>claimed_caregiver_id := Some (c_id cg)\<rparr>),
              shift_db := put (put (shift_db db) (msg_shift_id m)
                  (sh\<lparr>claimed_by_caregiver_id := Some (c_id cg)\<rparr>)) (s_id sh)
                (sh\<lparr>claimed_by_caregiver_id := Some (c_id cg)\<rparr>)\<rparr>)"
    show ?thesis
      using assms unc Inbound
      by (cases "s_id sh = k") (auto simp: res get_put later_def)
  qed
qed

lemma run_later:
  "get (fanout_db db) k = Some st \<Longrightarrow>
     \<exists>st'. get (fanout_db (run db qs)) k = Some st' \<and> later st st'"
proof (induction qs arbitrary: db st)
  case Nil
  then show ?case by (auto simp: later_refl)
next
  case (Cons q qs)
  from step_later [OF Cons.prems, of q] obtain st1 where
    s1: "get (fanout_db (step db q)) k = Some st1" "later st st1" by blast
  from Cons.IH [OF s1(1)] s1(2) show ?case
    by (auto intro: later_trans)
qed

lemma step_claimed_shift:
  assumes "get (shift_db db) k = Some sh" and "s_id sh = k"
    and "get (fanout_db db) k = Some st" and "claimed_caregiver_id st \<noteq> None"
  shows "get (shift_db (step db q)) k = Some sh"
proof (cases q)
  case (Fanout nt t0 t1 k')
  then show ?thesis
    using trigger_fanout_frame [of nt t0 t1 db k'] assms(1) by simp
next
  case (Inbound classify now m)
  show ?thesis
  proof (rule receive_message_cases [of classify now db m])
    fix r bodies
    assume "receive_message classify now db m = (r, bodies, db)"
    with assms Inbound show ?thesis by simp
  next
    fix cg :: Caregiver and sh0 :: Shift
    assume sh0: "get (shift_db db) (msg_shift_id m) = Some sh0"
      and unc: "case get (fanout_db db) (s_id sh0) of None \<Rightarrow> True
       | Some st \<Rightarrow> claimed_caregiver_id st = None"
      and res: "receive_message classify now db m =
         (Inr \<lparr>success = True, message = ''Shift successfully claimed!'',
                resp_shift_id = s_id sh0, claimed_by = Some (c_id cg)\<rparr>, [body m],
          db\<lparr>fanout_db := put (fanout_db db) (s_id sh0)
                ((case get (fanout_db db) (s_id sh0) of
                    None \<Rightarrow> new_fanout_state (s_id sh0) now | Some st \<Rightarrow> st)
                 \<lparr>claimed_caregiver_id := Some (c_id cg)\<rparr>),
              shift_db := put (put (shift_db db) (msg_shift_id m)
                  (sh0\<lparr>claimed_by_caregiver_id := Some (c_id cg)\<rparr>)) (s_id sh0)
                (sh0\<lparr>claimed_by_caregiver_id := Some (c_id cg)\<rparr>)\<rparr>)"
    from unc assms(3,4) have id: "s_id sh0 \<noteq> k" by auto
    with sh0 assms(1,2) have "msg_shift_id m \<noteq> k" by auto
    with id assms(1) Inbound show ?thesis
      by (simp add: res get_put)
  qed
qed

lemma run_claimed:
  assumes "get (shift_db db) k = Some sh" and "s_id sh = k"
    and "get (fanout_db db) k = Some st" and "claimed_caregiver_id st = Some w"
  shows "get (shift_db (run db qs)) k = Some sh \<and>
         (\<exists>st'. get (fanout_db (run db qs)) k = Some st' \<and> claimed_caregiver_id st' = Some w)"
  using assms
proof (induction qs arbitrary: db st)
  case Nil
  then show ?case by simp
next
  case (Cons q qs)
  from Cons.prems have sh1: "get (shift_db (step db q)) k = Some sh"
    by (intro step_claimed_shift) auto
  from step_later [OF Cons.prems(3), of q] Cons.prems(4) obtain st1 where
    "get (fanout_db (step db q)) k = Some st1" "claimed_caregiver_id st1 = Some w"
    by (auto simp: later_def)
  from Cons.IH [OF sh1 Cons.prems(2) this] show ?case by simp
qed

lemma receive_all_claimed:
  assumes "get (shift_db db) k = Some sh" and "s_id sh = k"
    and "get (fanout_db db) k = Some st" and "claimed_caregiver_id st = Some w"
    and "list_all (\<lambda>(now, m). accept_attempt classify db k m) ms"
  shows "receive_all classify db ms =
           replicate (length ms)
             (Inr \<lparr>success = False, message = ''Shift already claimed'',
                    resp_shift_id = k, claimed_by = Some w\<rparr>)"
  using assms(5)
proof (induction ms)
  case Nil
  then show ?case by simp
next
  case (Cons a ms)
  obtain now m where a: "a = (now, m)" by (cases a)
  with Cons.prems assms(1) obtain cg where
    cg: "find (\<lambda>c. phone c = from_phone m) (all_values (caregiver_db db)) = Some cg"
    and m: "msg_shift_id m = k" "classify (body m) = ACCEPT" "role_required sh = role cg"
    by (auto simp: accept_attempt_def split: option.splits)
  from assms(1) m(1) have "get (shift_db db) (msg_shift_id m) = Some sh" by simp
  from receive_message_already_claimed
    [of m db cg sh classify st w now, OF cg this m(3) m(2)] assms(2-4)
  have "receive_message classify now db m =
          (Inr \<lparr>success = False, message = ''Shift already claimed'',
                 resp_shift_id = k, claimed_by = Some w\<rparr>, [body m], db)"
    by simp
  with Cons a show ?case by simp
qed

lemma eligible_distinct:
  "distinct (map c_id (all_values cdb)) \<Longrightarrow> distinct (map c_id (eligible_caregivers cdb sh))"
  by (simp add: eligible_caregivers_def distinct_map_filter)

lemma send_ok_sms:
  "list_all (send_ok nt) (map (\<lambda>c. (SMS, phone c, text)) cs) =
     list_all (\<lambda>c. send_sms nt (phone c) text) cs"
  by (simp add: list_all_iff)

lemma send_ok_call:
  "list_all (send_ok nt) (map (\<lambda>c. (CALL, phone c, text)) cs) =
     list_all (\<lambda>c. place_phone_call nt (phone c) text) cs"
  by (simp add: list_all_iff)

lemma filter_calls_sms: "filter is_call (map (\<lambda>c. (SMS, phone c, text)) cs) = []"
  by (induction cs) auto

lemma filter_calls_call:
  "filter is_call (map (\<lambda>c. (CALL, phone c, text)) cs) = map (\<lambda>c. (CALL, phone c, text)) cs"
  by (induction cs) auto

lemma filter_sms_sms:
  "filter (\<lambda>s. \<not> is_call s) (map (\<lambda>c. (SMS, phone c, text)) cs) =
     map (\<lambda>c. (SMS, phone c, text)) cs"
  by (induction cs) auto

lemma filter_sms_call: "filter (\<lambda>s. \<not> is_call s) (map (\<lambda>c. (CALL, phone c, text)) cs) = []"
  by (induction cs) auto

lemma step_before_boundary:
  assumes inv: "case get (fanout_db db) k of None \<Rightarrow> True
                | Some st \<Rightarrow> started_at st = T \<longrightarrow> \<not> escalated_to_call st"
    and early: "before_boundary k T q"
  shows "case get (fanout_db (step db q)) k of None \<Rightarrow> True
         | Some st \<Rightarrow> started_at st = T \<longrightarrow> \<not> escalated_to_call st"
proof (cases q)
  case (Fanout nt t0 t1 k')
  show ?thesis
  proof (cases "k' = k")
    case False
    then have "get (fanout_db (step db q)) k = get (fanout_db db) k"
      using trigger_fanout_frame [of nt t0 t1 db k'] Fanout by simp
    with inv show ?thesis by simp
  next
    case True
    show ?thesis
    proof (cases "get (shift_db db) k")
      case None
      with inv True Fanout show ?thesis
        by (simp add: trigger_fanout_not_found)
    next
      case (Some sh)
      obtain st0 db1 where goc: "get_or_create db k t0 = (st0, db1)"
        by (cases "get_or_create db k t0")
      have st0: "started_at st0 = T \<longrightarrow> \<not> escalated_to_call st0"
        using goc inv
        by (auto simp: get_or_create_def Let_def new_fanout_state_def split: option.splits)
      from trigger_fanout_summary [OF Some goc, of nt t1] obtain st' where
        st': "get (fanout_db (snd (snd (trigger_fanout nt t0 t1 db k)))) k = Some st'"
          "later st0 st'"
          "escalated_to_call st' \<and> \<not> escalated_to_call st0 \<longrightarrow>
             ten_minutes \<le> t1 - started_at st0"
        by blast
      from early True Fanout have "t1 - T < ten_minutes" by simp
      with st0 st'(2,3) have "started_at st' = T \<longrightarrow> \<not> escalated_to_call st'"
        by (auto simp: later_def)
      with st'(1) True Fanout show ?thesis by simp
    qed
  qed
next
  case (Inbound classify now m)
  show ?thesis
  proof (rule receive_message_cases [of classify now db m])
    fix r bodies
    assume "receive_message classify now db m = (r, bodies, db)"
    with inv Inbound show ?thesis by simp
  next
    fix cg :: Caregiver and sh :: Shift
    assume res: "receive_message classify now db m =
         (Inr \<lparr>success = True, message = ''Shift successfully claimed!'',
                resp_shift_id = s_id sh, claimed_by = Some (c_id cg)\<rparr>, [body m],
          db\<lparr>fanout_db := put (fanout_db db) (s_id sh)
                ((case get (fanout_db db) (s_id sh) of
                    None \<Rightarrow> new_fanout_state (s_id sh) now | Some st \<Rightarrow> st)
                 \<lparr>claimed_caregiver_id := Some (c_id cg)\<rparr>),
              shift_db := put (put (shift_db db) (msg_shift_id m)
                  (sh\<lparr>claimed_by_caregiver_id := Some (c_id cg)\<rparr>)) (s_id sh)
                (sh\<lparr>claimed_by_caregiver_id := Some (c_id cg)\<rparr>)\<rparr>)"
    show ?thesis
      using inv Inbound
      by (cases "s_id sh = k")
        (auto simp: res get_put new_fanout_state_def split: option.splits)
  qed
qed

lemma run_before_boundary:
  assumes "case get (fanout_db db) k of None \<Rightarrow> True
           | Some st \<Rightarrow> started_at st = T \<longrightarrow> \<not> escalated_to_call st"
    and "list_all (before_boundary k T) qs"
  shows "case get (fanout_db (run db qs)) k of None \<Rightarrow> True
         | Some st \<Rightarrow> started_at st = T \<longrightarrow> \<not> escalated_to_call st"
  using assms
proof (induction qs arbitrary: db)
  case Nil
  then show ?case by simp
next
  case (Cons q qs)
  from Cons.prems have "case get (fanout_db (step db q)) k of None \<Rightarrow> True
         | Some st \<Rightarrow> started_at st = T \<longrightarrow> \<not> escalated_to_call st"
    by (intro step_before_boundary) simp_all
  with Cons show ?case by simp
qed

lemma trigger_fanout_escalates:
  assumes "get (shift_db db) k = Some sh"
    and "get_or_create db k t0 = (st, db1)"
    and "\<not> truthy (claimed_caregiver_id st)"
    and "ten_minutes \<le> t1 - started_at st"
    and "list_all (send_ok nt) (filter (\<lambda>s. \<not> is_call s) (fst (snd (trigger_fanout nt t0 t1 db k))))"
  shows "\<exists>st'. get (fanout_db (snd (snd (trigger_fanout nt t0 t1 db k)))) k = Some st' \<and>
           escalated_to_call st'"
  using assms(4,5) get_or_create_frame [OF assms(2)]
  unfolding trigger_fanout_unclaimed [OF assms(1-3)] Let_def
  by (auto simp: get_put send_ok_sms send_ok_call filter_sms_sms filter_sms_call
      split: if_splits)

lemma keyed_get: "keyed_by_id db \<Longrightarrow> get db k = Some sh \<Longrightarrow> s_id sh = k"
  by (auto simp: keyed_by_id_def get_def list_all_iff dest: map_of_SomeD)

lemma keyed_put: "keyed_by_id db \<Longrightarrow> s_id sh = k \<Longrightarrow> keyed_by_id (put db k sh)"
  by (induction db) (auto simp: keyed_by_id_def)

lemma step_keyed: "keyed_by_id (shift_db db) \<Longrightarrow> keyed_by_id (shift_db (step db q))"
proof (cases q)
  case (Fanout nt t0 t1 k)
  assume "keyed_by_id (shift_db db)"
  with Fanout show ?thesis
    using trigger_fanout_frame [of nt t0 t1 db k] by simp
next
  case (Inbound classify now m)
  assume keyed: "keyed_by_id (shift_db db)"
  show ?thesis
  proof (rule receive_message_cases [of classify now db m])
    fix r bodies
    assume "receive_message classify now db m = (r, bodies, db)"
    with keyed Inbound show ?thesis by simp
  next
    fix cg :: Caregiver and sh :: Shift
    assume sh: "get (shift_db db) (msg_shift_id m) = Some sh"
      and res: "receive_message classify now db m =
         (Inr \<lparr>success = True, message = ''Shift successfully claimed!'',
                resp_shift_id = s_id sh, claimed_by = Some (c_id cg)\<rparr>, [body m],
          db\<lparr>fanout_db := put (fanout_db db) (s_id sh)
                ((case get (fanout_db db) (s_id sh) of
                    None \<Rightarrow> new_fanout_state (s_id sh) now | Some st \<Rightarrow> st)
                 \<lparr>claimed_caregiver_id := Some (c_id cg)\<rparr>),
              shift_db := put (put (shift_db db) (msg_shift_id m)
                  (sh\<lparr>claimed_by_caregiver_id := Some (c_id cg)\<rparr>)) (s_id sh)
                (sh\<lparr>claimed_by_caregiver_id := Some (c_id cg)\<rparr>)\<rparr>)"
    from keyed_get [OF keyed sh] have "msg_shift_id m = s_id sh" by simp
    with keyed show ?thesis
      by (simp add: Inbound res keyed_put)
  qed
qed

lemma eligible_only:
  assumes "distinct (map c_id (all_values cdb))"
    and "c \<in> set (all_values cdb)" and "role c \<noteq> role_required sh"
  shows "c_id c \<notin> c_id ` set (eligible_caregivers cdb sh)"
proof
  assume "c_id c \<in> c_id ` set (eligible_caregivers cdb sh)"
  then obtain c' where c': "c' \<in> set (all_values cdb)" "role c' = role_required sh"
    "c_id c' = c_id c"
    by (auto simp: eligible_caregivers_def)
  from assms(1) have "inj_on c_id (set (all_values cdb))"
    by (simp add: distinct_map)
  with c'(1,3) assms(2) have "c' = c" by (auto dest: inj_onD)
  with c'(2) assms(3) show False by simp
qed

lemma step_role_excluded:
  assumes keyed: "keyed_by_id (shift_db db)"
    and ids: "distinct (map c_id (all_values (caregiver_db db)))"
    and inv: "role_excluded db"
  shows "role_excluded (step db q)"
proof (cases q)
  case (Fanout nt t0 t1 k0)
  note fr = trigger_fanout_frame [of nt t0 t1 db k0]
  show ?thesis
    unfolding role_excluded_def
  proof (intro allI impI)
    fix k sh st c
    assume sh: "get (shift_db (step db q)) k = Some sh"
      and st: "get (fanout_db (step db q)) k = Some st"
      and c: "c \<in> set (all_values (caregiver_db (step db q)))"
      and r: "role c \<noteq> role_required sh"
    from sh c fr Fanout have sh0: "get (shift_db db) k = Some sh"
      and c0: "c \<in> set (all_values (caregiver_db db))" by simp_all
    show "c_id c \<notin> set (sms_notified_caregiver_ids st) \<and>
          c_id c \<notin> set (call_notified_caregiver_ids st)"
    proof (cases "k0 = k")
      case False
      with st fr Fanout have "get (fanout_db db) k = Some st" by simp
      with inv sh0 c0 r show ?thesis
        unfolding role_excluded_def by blast
    next
      case True
      obtain st0 db1 where goc: "get_or_create db k t0 = (st0, db1)"
        by (cases "get_or_create db k t0")
      have st0: "c_id c \<notin> set (sms_notified_caregiver_ids st0) \<and>
                 c_id c \<notin> set (call_notified_caregiver_ids st0)"
      proof (cases "get (fanout_db db) k")
        case None
        with goc show ?thesis
          by (auto simp: get_or_create_def Let_def new_fanout_state_def)
      next
        case (Some s)
        with goc have "st0 = s" by (simp add: get_or_create_def)
        with inv sh0 Some c0 r show ?thesis
          unfolding role_excluded_def by blast
      qed
      from trigger_fanout_summary [OF sh0 goc, of nt t1] st True Fanout
      have "set (sms_notified_caregiver_ids st) \<subseteq> set (sms_notified_caregiver_ids st0) \<union>
               c_id ` set (eligible_caregivers (caregiver_db db) sh)"
        "set (call_notified_caregiver_ids st) \<subseteq> set (call_notified_caregiver_ids st0) \<union>
               c_id ` set (eligible_caregivers (caregiver_db db) sh)"
        by auto
      with st0 eligible_only [OF ids c0 r] show ?thesis by blast
    qed
  qed
next
  case (Inbound classify now m)
  show ?thesis
  proof (rule receive_message_cases [of classify now db m])
    fix r bodies
    assume "receive_message classify now db m = (r, bodies, db)"
    with inv Inbound show ?thesis by simp
  next
    fix cg :: Caregiver and sh0 :: Shift
    assume sh0: "get (shift_db db) (msg_shift_id m) = Some sh0"
      and res: "receive_message classify now db m =
         (Inr \<lparr>success = True, message = ''Shift successfully claimed!'',
                resp_shift_id = s_id sh0, claimed_by = Some (c_id cg)\<rparr>, [body m],
          db\<lparr>fanout_db := put (fanout_db db) (s_id sh0)
                ((case get (fanout_db db) (s_id sh0) of
                    None \<Rightarrow> new_fanout_state (s_id sh0) now | Some st \<Rightarrow> st)
                 \<lparr>claimed_caregiver_id := Some (c_id cg)\<rparr>),
              shift_db := put (put (shift_db db) (msg_shift_id m)
                  (sh0\<lparr>claimed_by_caregiver_id := Some (c_id cg)\<rparr>)) (s_id sh0)
                (sh0\<lparr>claimed_by_caregiver_id := Some (c_id cg)\<rparr>)\<rparr>)"
    from keyed_get [OF keyed sh0] have key: "msg_shift_id m = s_id sh0"
      by simp
    with sh0 have at: "get (shift_db db) (s_id sh0) = Some sh0"
      by simp
    show ?thesis
      unfolding role_excluded_def
    proof (intro allI impI)
      fix k sh st c
      assume sh: "get (shift_db (step db q)) k = Some sh"
        and st: "get (fanout_db (step db q)) k = Some st"
        and c: "c \<in> set (all_values (caregiver_db (step db q)))"
        and r: "role c \<noteq> role_required sh"
      show "c_id c \<notin> set (sms_notified_caregiver_ids st) \<and>
            c_id c \<notin> set (call_notified_caregiver_ids st)"
      proof (cases "s_id sh0 = k")
        case False
        with sh st c Inbound res key have "get (shift_db db) k = Some sh"
          "get (fanout_db db) k = Some st" "c \<in> set (all_values (caregiver_db db))"
          by (simp_all add: get_put)
        with inv r show ?thesis
          unfolding role_excluded_def by blast
      next
        case True
        with sh st c Inbound res
        have sh': "sh = sh0\<lparr>claimed_by_caregiver_id := Some (c_id cg)\<rparr>"
          and st': "st = (case get (fanout_db db) k of
                      None \<Rightarrow> new_fanout_state k now | Some st \<Rightarrow> st)
                     \<lparr>claimed_caregiver_id := Some (c_id cg)\<rparr>"
          and c0: "c \<in> set (all_values (caregiver_db db))"
          by (auto simp: get_put)
        from r sh' have r0: "role c \<noteq> role_required sh0" by simp
        show ?thesis
        proof (cases "get (fanout_db db) k")
          case None
          with st' show ?thesis by (simp add: new_fanout_state_def)
        next
          case (Some s)
          with inv at True c0 r0 have "c_id c \<notin> set (sms_notified_caregiver_ids s) \<and>
            c_id c \<notin> set (call_notified_caregiver_ids s)"
            unfolding role_excluded_def by blast
          with st' Some show ?thesis by simp
        qed
      qed
    qed
  qed
qed

lemma run_role_excluded:
  assumes "keyed_by_id (shift_db db)"
    and "distinct (map c_id (all_values (caregiver_db db)))"
    and "role_excluded db"
  shows "role_excluded (run db qs)"
  using assms
proof (induction qs arbitrary: db)
  case Nil
  then show ?case by simp
next
  case (Cons q qs)
  have "role_excluded (run (step db q) qs)"
    using Cons.prems
    by (intro Cons.IH step_keyed step_role_excluded) (simp_all add: step_caregiver_db)
  then show ?case by simp
qed

lemma trigger_fanout_calls:
  assumes "s \<in> set (fst (snd (trigger_fanout nt t0 t1 db k)))" and "is_call s"
  shows "(case get (fanout_db db) k of None \<Rightarrow> True | Some st \<Rightarrow> \<not> escalated_to_call st) \<and>
         (\<exists>st'. get (fanout_db (snd (snd (trigger_fanout nt t0 t1 db k)))) k = Some st' \<and>
            escalated_to_call st')"
proof (cases "get (shift_db db) k")
  case None
  with assms show ?thesis by (simp add: trigger_fanout_not_found)
next
  case (Some sh)
  obtain st0 db1 where goc: "get_or_create db k t0 = (st0, db1)"
    by (cases "get_or_create db k t0")
  have entry: "\<not> escalated_to_call st0 \<Longrightarrow>
      (case get (fanout_db db) k of None \<Rightarrow> True | Some st \<Rightarrow> \<not> escalated_to_call st)"
    using goc by (auto simp: get_or_create_def Let_def split: option.splits)
  show ?thesis
  proof (cases "truthy (claimed_caregiver_id st0)")
    case True
    with Some goc assms show ?thesis by (simp add: trigger_fanout_def)
  next
    case False
    from assms have "ten_minutes \<le> t1 - started_at st0 \<and> \<not> escalated_to_call st0 \<and>
        list_all (\<lambda>c. send_sms nt (phone c) (sms_text sh))
          (to_notify (eligible_caregivers (caregiver_db db) sh) (sms_notified_caregiver_ids st0))"
      unfolding trigger_fanout_unclaimed [OF Some goc False] Let_def
      by (auto split: if_splits)
    then show ?thesis
      using entry
      unfolding trigger_fanout_unclaimed [OF Some goc False] Let_def
      by (simp add: get_put)
  qed
qed

lemma step_calls_frozen:
  assumes "get (fanout_db db) k = Some st" and "escalated_to_call st"
  shows "\<exists>st'. get (fanout_db (step db q)) k = Some st' \<and> escalated_to_call st' \<and>
           call_notified_caregiver_ids st' = call_notified_caregiver_ids st"
proof (cases q)
  case (Fanout nt t0 t1 k')
  show ?thesis
  proof (cases "k' = k")
    case False
    then have "get (fanout_db (step db q)) k = get (fanout_db db) k"
      using trigger_fanout_frame [of nt t0 t1 db k'] Fanout by simp
    with assms show ?thesis by simp
  next
    case True
    show ?thesis
    proof (cases "get (shift_db db) k")
      case None
      with assms True Fanout show ?thesis
        by (simp add: trigger_fanout_not_found)
    next
      case (Some sh)
      from trigger_fanout_summary [OF Some get_or_create_present [OF assms(1)], of nt t0 t1]
        assms(2) True Fanout
      show ?thesis by (auto simp: later_def)
    qed
  qed
next
  case (Inbound classify now m)
  show ?thesis
  proof (rule receive_message_cases [of classify now db m])
    fix r bodies
    assume "receive_message classify now db m = (r, bodies, db)"
    with assms Inbound show ?thesis by simp
  next
    fix cg :: Caregiver and sh :: Shift
    assume res: "receive_message classify now db m =
         (Inr \<lparr>success = True, message = ''Shift successfully claimed!'',
                resp_shift_id = s_id sh, claimed_by = Some (c_id cg)\<rparr>, [body m],
          db\<lparr>fanout_db := put (fanout_db db) (s_id sh)
                ((case get (fanout_db db) (s_id sh) of
                    None \<Rightarrow> new_fanout_state (s_id sh) now | Some st \<Rightarrow> st)
                 \<lparr>claimed_caregiver_id := Some (c_id cg)\<rparr>),
              shift_db := put (put (shift_db db) (msg_shift_id m)
                  (sh\<lparr>claimed_by_caregiver_id := Some (c_id cg)\<rparr>)) (s_id sh)
                (sh\<lparr>claimed_by_caregiver_id := Some (c_id cg)\<rparr>)\<rparr>)"
    show ?thesis
      using assms Inbound
      by (cases "s_id sh = k") (auto simp: res get_put)
  qed
qed

lemma run_calls_frozen:
  "get (fanout_db db) k = Some st \<Longrightarrow> escalated_to_call st \<Longrightarrow>
     \<exists>st'. get (fanout_db (run db qs)) k = Some st' \<and> escalated_to_call st' \<and>
       call_notified_caregiver_ids st' = call_notified_caregiver_ids st"
proof (induction qs arbitrary: db st)
  case Nil
  then show ?case by simp
next
  case (Cons q qs)
  from step_calls_frozen [OF Cons.prems, of q] obtain st1 where
    s1: "get (fanout_db (step db q)) k = Some st1" "escalated_to_call st1"
      "call_notified_caregiver_ids st1 = call_notified_caregiver_ids st" by blast
  from Cons.IH [OF s1(1,2)] s1(3) show ?case by auto
qed

lemma trigger_fanout_marks_sms:
  assumes "get (shift_db db) k = Some sh" and "unclaimed db k"
    and "c \<in> set (all_values (caregiver_db db))" and "role c = role_required sh"
  shows "\<exists>st'. get (fanout_db (snd (snd (trigger_fanout nt t0 t1 db k)))) k = Some st' \<and>
           c_id c \<in> set (sms_notified_caregiver_ids st')"
proof -
  obtain st0 db1 where goc: "get_or_create db k t0 = (st0, db1)"
    by (cases "get_or_create db k t0")
  from assms(2) goc have unc: "\<not> truthy (claimed_caregiver_id st0)"
    by (auto simp: unclaimed_def get_or_create_def Let_def new_fanout_state_def truthy_def
        split: option.splits)
  from assms(3,4) have "c \<in> set (eligible_caregivers (caregiver_db db) sh)"
    by (simp add: eligible_caregivers_def)
  from to_notify_covers [OF this, of "sms_notified_caregiver_ids st0"]
  show ?thesis
    unfolding trigger_fanout_unclaimed [OF assms(1) goc unc] Let_def
    by (auto simp: get_put)
qed

lemma trigger_fanout_flag:
  assumes "get (shift_db db) k = Some sh"
    and "get_or_create db k t0 = (st, db1)"
    and "\<not> escalated_to_call st"
  shows "\<exists>st'. get (fanout_db (snd (snd (trigger_fanout nt t0 t1 db k)))) k = Some st' \<and>
           started_at st' = started_at st \<and>
           escalated_to_call st' =
             (\<not> truthy (claimed_caregiver_id st) \<and> ten_minutes \<le> t1 - started_at st \<and>
              list_all (send_ok nt)
                (filter (\<lambda>s. \<not> is_call s) (fst (snd (trigger_fanout nt t0 t1 db k)))))"
proof (cases "truthy (claimed_caregiver_id st)")
  case True
  with assms have "trigger_fanout nt t0 t1 db k = (Inr st, [], db1)"
    by (simp add: trigger_fanout_def)
  with True assms(3) get_or_create_frame [OF assms(2)] show ?thesis
    by simp
next
  case False
  show ?thesis
    using assms(3) False get_or_create_frame [OF assms(2)]
    unfolding trigger_fanout_unclaimed [OF assms(1,2) False] Let_def
    by (auto simp: get_put send_ok_sms send_ok_call filter_sms_sms filter_sms_call)
qed

lemma trigger_fanout_on_claimed:
  assumes "get (fanout_db db) k = Some st" and "truthy (claimed_caregiver_id st)"
  shows "snd (snd (trigger_fanout nt t0 t1 db k)) = db \<and>
         fst (snd (trigger_fanout nt t0 t1 db k)) = []"
proof (cases "get (shift_db db) k")
  case None
  then show ?thesis by (simp add: trigger_fanout_not_found)
next
  case (Some sh)
  from trigger_fanout_claimed [OF Some assms] show ?thesis by simp
qed

section \<open>The stores at startup and in the fixture\<close>

lemma put_keys:
  "map fst (put db k v) = (if k \<in> fst ` set db then map fst db else map fst db @ [k])"
  by (induction db) force+

lemma put_distinct: "distinct (map fst db) \<Longrightarrow> distinct (map fst (put db k v))"
  by (auto simp: put_keys)

lemma put_keyed:
  "list_all (\<lambda>(k, v). f v = k) db \<Longrightarrow> f v = k \<Longrightarrow> list_all (\<lambda>(k, v). f v = k) (put db k v)"
  by (induction db) auto

lemma load_keyed:
  "distinct (map fst (foldl (\<lambda>db v. put db (f v) v) [] vs)) \<and>
   list_all (\<lambda>(k, v). f v = k) (foldl (\<lambda>db v. put db (f v) v) [] vs)"
  by (induction vs rule: rev_induct) (simp_all add: put_distinct put_keyed)

lemma keyed_ids:
  "list_all (\<lambda>(k, v). f v = k) db \<Longrightarrow> map f (all_values db) = map fst db"
  by (induction db) (auto simp: all_values_def)

lemma load_sample_data_start:
  "keyed_by_id (shift_db (load_sample_data caregivers shifts)) \<and>
   distinct (map c_id (all_values (caregiver_db (load_sample_data caregivers shifts)))) \<and>
   fanout_db (load_sample_data caregivers shifts) = []"
  using load_keyed [of s_id shifts] load_keyed [of c_id caregivers]
  by (simp add: load_sample_data_def keyed_by_id_def keyed_ids)

lemma fixture_runs:
  "run clean_db [Fanout reliable 0 0 ''s1''] = fanout_started_db"
  "run fanout_started_db [Inbound keyword_intent 1 (msg_from alice ''Yes I can do it'')] =
     alice_claimed_db"
  "run fanout_started_db [Fanout reliable 0 ten_minutes ''s1''] = escalated_db"
  "run late_pool_db [Inbound keyword_intent 2 (msg_from carol ''Accept please'')] =
     late_claimed_db"
  "load_sample_data [alice, bob, carol] [shift_s1] = clean_db"
  by code_simp+

section \<open>Claims\<close>

text \<open>
  C1. Once the claim pointer of shift \<open>k\<close> is set to \<open>w\<close>, on the shift (stored under
  its id) and mirrored on the fanout state, it is \<open>w\<close> on both after every sequence of
  fanout triggers and inbound messages, for any shifts, notifiers, classifiers and clock
  reads; and every later ACCEPT for the shift, also one from \<open>w\<close>, is answered with
  ``Shift already claimed'', no success, and \<open>w\<close> as the claimant, and changes nothing.
\<close>

theorem claim_pointer_never_changes:
  assumes "get (shift_db db) k = Some sh" and "s_id sh = k"
    and "claimed_by_caregiver_id sh = Some w"
    and "get (fanout_db db) k = Some st" and "claimed_caregiver_id st = Some w"
  shows "(\<exists>sh'. get (shift_db (run db qs)) k = Some sh' \<and>
            claimed_by_caregiver_id sh' = Some w) \<and>
         (\<exists>st'. get (fanout_db (run db qs)) k = Some st' \<and>
            claimed_caregiver_id st' = Some w) \<and>
         (\<forall>classify now m. accept_attempt classify (run db qs) k m \<longrightarrow>
            receive_message classify now (run db qs) m =
              (Inr \<lparr>success = False, message = ''Shift already claimed'',
                     resp_shift_id = k, claimed_by = Some w\<rparr>, [body m], run db qs))"
proof -
  from run_claimed [OF assms(1,2,4,5), of qs] obtain st' where
    sh': "get (shift_db (run db qs)) k = Some sh" and
    st': "get (fanout_db (run db qs)) k = Some st'" "claimed_caregiver_id st' = Some w"
    by blast
  have "receive_message classify now (run db qs) m =
          (Inr \<lparr>success = False, message = ''Shift already claimed'',
                 resp_shift_id = k, claimed_by = Some w\<rparr>, [body m], run db qs)"
    if "accept_attempt classify (run db qs) k m" for classify now m
  proof -
    from that sh' obtain cg where
      cg: "find (\<lambda>c. phone c = from_phone m) (all_values (caregiver_db (run db qs))) = Some cg"
      and m: "msg_shift_id m = k" "classify (body m) = ACCEPT" "role_required sh = role cg"
      by (auto simp: accept_attempt_def split: option.splits)
    from sh' m(1) have "get (shift_db (run db qs)) (msg_shift_id m) = Some sh" by simp
    from receive_message_already_claimed
      [of m "run db qs" cg sh classify st' w now, OF cg this m(3) m(2)] st' assms(2)
    show ?thesis by simp
  qed
  with sh' st' assms(3) show ?thesis by blast
qed


theorem claim_pointer_never_changes_witness:
  "get (shift_db alice_claimed_db) ''s1'' =
     Some (shift_s1\<lparr>claimed_by_caregiver_id := Some ''c1''\<rparr>) \<and>
   get (fanout_db alice_claimed_db) ''s1'' =
     Some (fanned_out\<lparr>claimed_caregiver_id := Some ''c1''\<rparr>) \<and>
   accept_attempt keyword_intent
     (run alice_claimed_db
        [Fanout reliable 0 ten_minutes ''s1'',
         Inbound keyword_intent 5 (msg_from alice ''Yes''),
         Inbound keyword_intent 6 (msg_from carol ''Accept please'')])
     ''s1'' (msg_from carol ''Yes'') \<and>
   fst (receive_message keyword_intent 7
     (run alice_claimed_db
        [Fanout reliable 0 ten_minutes ''s1'',
         Inbound keyword_intent 5 (msg_from alice ''Yes''),
         Inbound keyword_intent 6 (msg_from carol ''Accept please'')])
     (msg_from carol ''Yes'')) =
     Inr \<lparr>success = False, message = ''Shift already claimed'',
           resp_shift_id = ''s1'', claimed_by = Some ''c1''\<rparr>"
proof -
  let ?qs = "[Fanout reliable 0 ten_minutes ''s1'',
              Inbound keyword_intent 5 (msg_from alice ''Yes''),
              Inbound keyword_intent 6 (msg_from carol ''Accept please'')]"
  have h1: "get (shift_db alice_claimed_db) ''s1'' =
              Some (shift_s1\<lparr>claimed_by_caregiver_id := Some ''c1''\<rparr>)"
    by (simp add: alice_claimed_db_def get_def)
  have h2: "s_id (shift_s1\<lparr>claimed_by_caregiver_id := Some ''c1''\<rparr>) = ''s1''"
    by (simp add: shift_s1_def)
  have h3: "claimed_by_caregiver_id (shift_s1\<lparr>claimed_by_caregiver_id := Some ''c1''\<rparr>) =
              Some ''c1''"
    by simp
  have h4: "get (fanout_db alice_claimed_db) ''s1'' =
              Some (fanned_out\<lparr>claimed_caregiver_id := Some ''c1''\<rparr>)"
    by (simp add: alice_claimed_db_def get_def)
  have h5: "claimed_caregiver_id (fanned_out\<lparr>claimed_caregiver_id := Some ''c1''\<rparr>) = Some ''c1''"
    by simp
  have h6: "accept_attempt keyword_intent (run alice_claimed_db ?qs) ''s1''
              (msg_from carol ''Yes'')"
    by code_simp
  from claim_pointer_never_changes [OF h1 h2 h3 h4 h5, of ?qs] h6
  have "receive_message keyword_intent 7 (run alice_claimed_db ?qs) (msg_from carol ''Yes'') =
          (Inr \<lparr>success = False, message = ''Shift already claimed'',
                 resp_shift_id = ''s1'', claimed_by = Some ''c1''\<rparr>,
           [body (msg_from carol ''Yes'')], run alice_claimed_db ?qs)"
    by blast
  with h1 h4 h6 show ?thesis by simp
qed

text \<open>
  C2. On a shift that is not claimed (no fanout state, or one without claimant), of N
  ACCEPT attempts by eligible caregivers, handled in any order of arrival, the first one
  succeeds and every other one is answered with ``Shift already claimed'', no success, and
  the first sender as the claimant. The senders need not be distinct.
\<close>

theorem first_accept_wins:
  assumes "get (shift_db db) k = Some sh" and "s_id sh = k"
    and "case get (fanout_db db) k of None \<Rightarrow> True
         | Some st \<Rightarrow> claimed_caregiver_id st = None"
    and "list_all (\<lambda>(now, m). accept_attempt classify db k m) ((t, m) # ms)"
    and "find (\<lambda>c. phone c = from_phone m) (all_values (caregiver_db db)) = Some winner"
  shows "receive_all classify db ((t, m) # ms) =
           Inr \<lparr>success = True, message = ''Shift successfully claimed!'',
                 resp_shift_id = k, claimed_by = Some (c_id winner)\<rparr> #
           replicate (length ms)
             (Inr \<lparr>success = False, message = ''Shift already claimed'',
                    resp_shift_id = k, claimed_by = Some (c_id winner)\<rparr>)"
proof -
  from assms(1,4,5) have m: "msg_shift_id m = k" "classify (body m) = ACCEPT"
    "role_required sh = role winner"
    by (auto simp: accept_attempt_def)
  let ?st = "(case get (fanout_db db) k of None \<Rightarrow> new_fanout_state k t | Some st \<Rightarrow> st)
               \<lparr>claimed_caregiver_id := Some (c_id winner)\<rparr>"
  let ?sh = "sh\<lparr>claimed_by_caregiver_id := Some (c_id winner)\<rparr>"
  let ?db = "db\<lparr>fanout_db := put (fanout_db db) k ?st, shift_db := put (shift_db db) k ?sh\<rparr>"
  from assms(1) m(1) have sh: "get (shift_db db) (msg_shift_id m) = Some sh" by simp
  from assms(2,3) have unc: "case get (fanout_db db) (s_id sh) of None \<Rightarrow> True
         | Some st \<Rightarrow> claimed_caregiver_id st = None" by simp
  from receive_message_win [of m db winner sh classify t, OF assms(5) sh m(3) m(2) unc] assms(2)
  have first: "receive_message classify t db m =
      (Inr \<lparr>success = True, message = ''Shift successfully claimed!'',
             resp_shift_id = k, claimed_by = Some (c_id winner)\<rparr>, [body m], ?db)"
    using m(1) by (simp add: put_put cong: option.case_cong)
  have "accept_attempt classify ?db k m'" if "accept_attempt classify db k m'" for m'
    using that assms(1) by (auto simp: accept_attempt_def get_put split: option.splits)
  with assms(4) have rest: "list_all (\<lambda>(now, m). accept_attempt classify ?db k m) ms"
    by (auto simp: list_all_iff)
  have "receive_all classify ?db ms =
          replicate (length ms)
            (Inr \<lparr>success = False, message = ''Shift already claimed'',
                   resp_shift_id = k, claimed_by = Some (c_id winner)\<rparr>)"
    by (rule receive_all_claimed [of ?db k ?sh ?st]) (use assms(2) rest in \<open>simp_all add: get_put\<close>)
  with first show ?thesis by simp
qed

theorem first_accept_wins_witness:
  "list_all (\<lambda>(now, m). accept_attempt keyword_intent fanout_started_db ''s1'' m)
     [(1, msg_from carol ''Accept please''), (2, msg_from alice ''Yes''),
      (3, msg_from carol ''Yes'')] \<and>
   receive_all keyword_intent fanout_started_db
     [(1, msg_from carol ''Accept please''), (2, msg_from alice ''Yes''),
      (3, msg_from carol ''Yes'')] =
     [Inr \<lparr>success = True, message = ''Shift successfully claimed!'',
            resp_shift_id = ''s1'', claimed_by = Some ''c3''\<rparr>,
      Inr \<lparr>success = False, message = ''Shift already claimed'',
            resp_shift_id = ''s1'', claimed_by = Some ''c3''\<rparr>,
      Inr \<lparr>success = False, message = ''Shift already claimed'',
            resp_shift_id = ''s1'', claimed_by = Some ''c3''\<rparr>]"
proof -
  have h1: "get (shift_db fanout_started_db) ''s1'' = Some shift_s1"
    by (simp add: fanout_started_db_def clean_db_def get_def)
  have h2: "s_id shift_s1 = ''s1''"
    by (simp add: shift_s1_def)
  have h3: "case get (fanout_db fanout_started_db) ''s1'' of None \<Rightarrow> True
            | Some st \<Rightarrow> claimed_caregiver_id st = None"
    by (simp add: fanout_started_db_def get_def fanned_out_def)
  have h4: "list_all (\<lambda>(now, m). accept_attempt keyword_intent fanout_started_db ''s1'' m)
              [(1, msg_from carol ''Accept please''), (2, msg_from alice ''Yes''),
               (3, msg_from carol ''Yes'')]"
    by code_simp
  have h5: "find (\<lambda>c. phone c = from_phone (msg_from carol ''Accept please''))
              (all_values (caregiver_db fanout_started_db)) = Some carol"
    by (simp add: fanout_started_db_def clean_db_def all_values_def msg_from_def
        alice_def bob_def carol_def)
  from first_accept_wins [OF h1 h2 h3 h4 h5] h4 show ?thesis
    by (simp add: carol_def)
qed

text \<open>
  C3, as stated, fails: the SMS to Alice raises, and the first trigger on the fixture
  raises with it instead of returning the fanout state.
\<close>

theorem failed_send_fails_the_trigger:
  "\<not> send_sms alice_unreachable (phone alice) (sms_text shift_s1) \<and>
   fst (trigger_fanout alice_unreachable 0 0 clean_db ''s1'') = Inl ChannelSendFailure"
  by code_simp

text \<open>
  C3, amended. In a trigger on a shift that line 93 does not take as claimed, with the
  caregiver ids of the pool distinct: the SMS issued are exactly those to the eligible
  caregivers not yet in the SMS list, and all of these are in the SMS list of the stored
  state afterwards, whether sends failed or not. When the SMS sends all complete and the
  escalation is due, the same holds for the calls and the call list, and the flag is set;
  in every other case, a failed SMS round included, no call is issued and the flag and
  the call list are as they were. The call returns the fanout state, the stored one,
  exactly when every send it issued completed; when one of them fails it raises that
  failure instead.
\<close>

theorem failed_send_leaves_round_complete:
  assumes "get (shift_db db) k = Some sh"
    and "get_or_create db k t0 = (st, db1)"
    and "\<not> truthy (claimed_caregiver_id st)"
    and "distinct (map c_id (all_values (caregiver_db db)))"
    and "trigger_fanout nt t0 t1 db k = (r, sends, db')"
  shows "(r = Inl ChannelSendFailure) = (\<not> list_all (send_ok nt) sends) \<and>
         (\<exists>s. r = Inr s) = list_all (send_ok nt) sends \<and>
         filter (\<lambda>s. \<not> is_call s) sends =
           map (\<lambda>c. (SMS, phone c, sms_text sh))
             (filter (\<lambda>c. c_id c \<notin> set (sms_notified_caregiver_ids st))
                (eligible_caregivers (caregiver_db db) sh)) \<and>
         (\<forall>c \<in> set (eligible_caregivers (caregiver_db db) sh).
            c_id c \<notin> set (sms_notified_caregiver_ids st) \<longrightarrow>
            (SMS, phone c, sms_text sh) \<in> set sends) \<and>
         (\<exists>st'. get (fanout_db db') k = Some st' \<and>
            (\<forall>s. r = Inr s \<longrightarrow> s = st') \<and>
            sms_notified_caregiver_ids st' =
              sms_notified_caregiver_ids st @
              map c_id (filter (\<lambda>c. c_id c \<notin> set (sms_notified_caregiver_ids st))
                (eligible_caregivers (caregiver_db db) sh)) \<and>
            c_id ` set (eligible_caregivers (caregiver_db db) sh)
              \<subseteq> set (sms_notified_caregiver_ids st') \<and>
            (if list_all (send_ok nt) (filter (\<lambda>s. \<not> is_call s) sends) \<and>
                ten_minutes \<le> t1 - started_at st \<and> \<not> escalated_to_call st
             then
               filter is_call sends =
                 map (\<lambda>c. (CALL, phone c, call_text sh))
                   (filter (\<lambda>c. c_id c \<notin> set (call_notified_caregiver_ids st))
                      (eligible_caregivers (caregiver_db db) sh)) \<and>
               escalated_to_call st' \<and>
               call_notified_caregiver_ids st' =
                 call_notified_caregiver_ids st @
                 map c_id (filter (\<lambda>c. c_id c \<notin> set (call_notified_caregiver_ids st))
                   (eligible_caregivers (caregiver_db db) sh)) \<and>
               c_id ` set (eligible_caregivers (caregiver_db db) sh)
                 \<subseteq> set (call_notified_caregiver_ids st') \<and>
               (\<forall>c \<in> set (eligible_caregivers (caregiver_db db) sh).
                  c_id c \<notin> set (call_notified_caregiver_ids st) \<longrightarrow>
                  (CALL, phone c, call_text sh) \<in> set sends)
             else
               filter is_call sends = [] \<and>
               escalated_to_call st' = escalated_to_call st \<and>
               call_notified_caregiver_ids st' = call_notified_caregiver_ids st))"
proof -
  let ?el = "eligible_caregivers (caregiver_db db) sh"
  have d: "distinct (map c_id ?el)"
    using assms(4) by (rule eligible_distinct)
  have tn: "to_notify ?el ids = filter (\<lambda>c. c_id c \<notin> set ids) ?el" for ids
    using d by (rule to_notify_distinct)
  let ?ns = "filter (\<lambda>c. c_id c \<notin> set (sms_notified_caregiver_ids st)) ?el"
  let ?nc = "filter (\<lambda>c. c_id c \<notin> set (call_notified_caregiver_ids st)) ?el"
  have cov_s: "c_id ` set ?el \<subseteq> set (sms_notified_caregiver_ids st @ map c_id ?ns)"
    by auto
  have cov_c: "c_id ` set ?el \<subseteq> set (call_notified_caregiver_ids st @ map c_id ?nc)"
    by auto
  note nf = assms(5) [unfolded trigger_fanout_unclaimed [OF assms(1-3)] Let_def tn]
  show ?thesis
  proof (cases "list_all (\<lambda>c. send_sms nt (phone c) (sms_text sh)) ?ns")
    case False
    with nf have res: "r = Inl ChannelSendFailure"
      "sends = map (\<lambda>c. (SMS, phone c, sms_text sh)) ?ns"
      "db' = db1\<lparr>fanout_db := put (fanout_db db1) k
         (st\<lparr>sms_notified_caregiver_ids := sms_notified_caregiver_ids st @ map c_id ?ns\<rparr>)\<rparr>"
      by simp_all
    show ?thesis
      unfolding res using False cov_s
      by (auto simp add: send_ok_sms filter_sms_sms filter_calls_sms get_put)
  next
    case sms_ok: True
    show ?thesis
    proof (cases "ten_minutes \<le> t1 - started_at st \<and> \<not> escalated_to_call st")
      case False
      with nf sms_ok have res: "r = Inr (st\<lparr>sms_notified_caregiver_ids :=
           sms_notified_caregiver_ids st @ map c_id ?ns\<rparr>)"
        "sends = map (\<lambda>c. (SMS, phone c, sms_text sh)) ?ns"
        "db' = db1\<lparr>fanout_db := put (fanout_db db1) k
           (st\<lparr>sms_notified_caregiver_ids := sms_notified_caregiver_ids st @ map c_id ?ns\<rparr>)\<rparr>"
        by auto
      show ?thesis
        unfolding res using False sms_ok cov_s
        by (auto simp add: send_ok_sms filter_sms_sms filter_calls_sms get_put)
    next
      case True
      with nf sms_ok have res:
        "r = (if list_all (\<lambda>c. place_phone_call nt (phone c) (call_text sh)) ?nc
              then Inr (st\<lparr>sms_notified_caregiver_ids :=
                     sms_notified_caregiver_ids st @ map c_id ?ns,
                   escalated_to_call := True,
                   call_notified_caregiver_ids :=
                     call_notified_caregiver_ids st @ map c_id ?nc\<rparr>)
              else Inl ChannelSendFailure)"
        "sends = map (\<lambda>c. (SMS, phone c, sms_text sh)) ?ns @
                 map (\<lambda>c. (CALL, phone c, call_text sh)) ?nc"
        "db' = db1\<lparr>fanout_db := put (fanout_db db1) k
           (st\<lparr>sms_notified_caregiver_ids := sms_notified_caregiver_ids st @ map c_id ?ns,
               escalated_to_call := True,
               call_notified_caregiver_ids :=
                 call_notified_caregiver_ids st @ map c_id ?nc\<rparr>)\<rparr>"
        by auto
      show ?thesis
        unfolding res using True sms_ok cov_s cov_c
        by (auto simp add: send_ok_sms send_ok_call filter_sms_sms filter_sms_call filter_calls_sms filter_calls_call get_put)
    qed
  qed
qed

theorem failed_send_leaves_round_complete_witness:
  "get (shift_db clean_db) ''s1'' = Some shift_s1 \<and>
   \<not> truthy (claimed_caregiver_id (new_fanout_state ''s1'' 0)) \<and>
   distinct (map c_id (all_values (caregiver_db clean_db))) \<and>
   trigger_fanout alice_unreachable 0 0 clean_db ''s1'' =
     (Inl ChannelSendFailure,
      [(SMS, ''+15551111'', ''New shift available! ID: s1''),
       (SMS, ''+15553333'', ''New shift available! ID: s1'')], fanout_started_db) \<and>
   \<not> list_all (send_ok alice_unreachable)
      [(SMS, ''+15551111'', ''New shift available! ID: s1''),
       (SMS, ''+15553333'', ''New shift available! ID: s1'')] \<and>
   get (fanout_db fanout_started_db) ''s1'' = Some fanned_out \<and>
   sms_notified_caregiver_ids fanned_out = [''c1'', ''c3''] \<and>
   distinct (map c_id (all_values (caregiver_db joined_db))) \<and>
   ten_minutes \<le> ten_minutes - started_at fanned_out \<and>
   \<not> escalated_to_call fanned_out \<and>
   trigger_fanout dave_unreachable 0 ten_minutes joined_db ''s1'' =
     (Inl ChannelSendFailure, [(SMS, ''+15555555'', ''New shift available! ID: s1'')],
      joined_db\<lparr>fanout_db :=
        [(''s1'', fanned_out\<lparr>sms_notified_caregiver_ids := [''c1'', ''c3'', ''c4'']\<rparr>)]\<rparr>) \<and>
   call_notified_caregiver_ids
     (fanned_out\<lparr>sms_notified_caregiver_ids := [''c1'', ''c3'', ''c4'']\<rparr>) = [] \<and>
   trigger_fanout carol_no_answer 0 ten_minutes fanout_started_db ''s1'' =
     (Inl ChannelSendFailure,
      [(CALL, ''+15551111'', ''Urgent: Shift available! ID: s1''),
       (CALL, ''+15553333'', ''Urgent: Shift available! ID: s1'')], escalated_db) \<and>
   get (fanout_db escalated_db) ''s1'' = Some called_out \<and>
   call_notified_caregiver_ids called_out = [''c1'', ''c3''] \<and>
   escalated_to_call called_out"
proof -
  have h1: "get (shift_db clean_db) ''s1'' = Some shift_s1"
    by (simp add: clean_db_def get_def)
  have h2: "get_or_create clean_db ''s1'' 0 =
      (new_fanout_state ''s1'' 0, clean_db\<lparr>fanout_db := [(''s1'', new_fanout_state ''s1'' 0)]\<rparr>)"
    by (simp add: get_or_create_def clean_db_def get_def Let_def)
  have h3: "\<not> truthy (claimed_caregiver_id (new_fanout_state ''s1'' 0))"
    by (simp add: truthy_def new_fanout_state_def)
  have h4: "distinct (map c_id (all_values (caregiver_db clean_db)))"
    by (simp add: clean_db_def all_values_def alice_def bob_def carol_def)
  have h5: "trigger_fanout alice_unreachable 0 0 clean_db ''s1'' =
     (Inl ChannelSendFailure,
      [(SMS, ''+15551111'', ''New shift available! ID: s1''),
       (SMS, ''+15553333'', ''New shift available! ID: s1'')], fanout_started_db)"
    by code_simp
  have h6: "get (fanout_db fanout_started_db) ''s1'' = Some fanned_out"
    by (simp add: fanout_started_db_def get_def)
  have j1: "get (shift_db joined_db) ''s1'' = Some shift_s1"
    by code_simp
  have j2: "get_or_create joined_db ''s1'' 0 = (fanned_out, joined_db)"
    by (rule get_or_create_present) code_simp
  have j3: "\<not> truthy (claimed_caregiver_id fanned_out)"
    by (simp add: truthy_def fanned_out_def)
  have j4: "distinct (map c_id (all_values (caregiver_db joined_db)))"
    by code_simp
  have j5: "trigger_fanout dave_unreachable 0 ten_minutes joined_db ''s1'' =
     (Inl ChannelSendFailure, [(SMS, ''+15555555'', ''New shift available! ID: s1'')],
      joined_db\<lparr>fanout_db :=
        [(''s1'', fanned_out\<lparr>sms_notified_caregiver_ids := [''c1'', ''c3'', ''c4'']\<rparr>)]\<rparr>)"
    by code_simp
  have j6: "ten_minutes \<le> ten_minutes - started_at fanned_out" "\<not> escalated_to_call fanned_out"
    by (simp_all add: fanned_out_def)
  have k1: "get (shift_db fanout_started_db) ''s1'' = Some shift_s1"
    by code_simp
  have k2: "get_or_create fanout_started_db ''s1'' 0 = (fanned_out, fanout_started_db)"
    using h6 by (rule get_or_create_present)
  have k4: "distinct (map c_id (all_values (caregiver_db fanout_started_db)))"
    by code_simp
  have k5: "trigger_fanout carol_no_answer 0 ten_minutes fanout_started_db ''s1'' =
     (Inl ChannelSendFailure,
      [(CALL, ''+15551111'', ''Urgent: Shift available! ID: s1''),
       (CALL, ''+15553333'', ''Urgent: Shift available! ID: s1'')], escalated_db)"
    by code_simp
  have k6: "get (fanout_db escalated_db) ''s1'' = Some called_out"
    by (simp add: escalated_db_def get_def)
  note sms = failed_send_leaves_round_complete [OF h1 h2 h3 h4 h5]
  note skipped = failed_send_leaves_round_complete [OF j1 j2 j3 j4 j5]
  note call = failed_send_leaves_round_complete [OF k1 k2 j3 k4 k5]
  from sms [THEN conjunct1] have p1: "\<not> list_all (send_ok alice_unreachable)
      [(SMS, ''+15551111'', ''New shift available! ID: s1''),
       (SMS, ''+15553333'', ''New shift available! ID: s1'')]"
    by simp
  have failed: "\<not> list_all (send_ok dave_unreachable)
      (filter (\<lambda>s. \<not> is_call s) [(SMS, ''+15555555'', ''New shift available! ID: s1'')])"
    by (simp add: dave_unreachable_def)
  have j7: "get (fanout_db (joined_db\<lparr>fanout_db :=
        [(''s1'', fanned_out\<lparr>sms_notified_caregiver_ids := [''c1'', ''c3'', ''c4'']\<rparr>)]\<rparr>)) ''s1'' =
      Some (fanned_out\<lparr>sms_notified_caregiver_ids := [''c1'', ''c3'', ''c4'']\<rparr>)"
    by (simp add: get_def)
  from skipped [THEN conjunct2, THEN conjunct2, THEN conjunct2, THEN conjunct2] failed
  have p2: "call_notified_caregiver_ids
     (fanned_out\<lparr>sms_notified_caregiver_ids := [''c1'', ''c3'', ''c4'']\<rparr>) =
     call_notified_caregiver_ids fanned_out"
    unfolding j7 by auto
  have sent: "list_all (send_ok carol_no_answer) (filter (\<lambda>s. \<not> is_call s)
      [(CALL, ''+15551111'', ''Urgent: Shift available! ID: s1''),
       (CALL, ''+15553333'', ''Urgent: Shift available! ID: s1'')])"
    by simp
  from call [THEN conjunct2, THEN conjunct2, THEN conjunct2, THEN conjunct2] sent j6
  have p3: "escalated_to_call called_out"
    unfolding k6 by auto
  from h1 h3 h4 h5 h6 j4 j5 j6 k5 k6 p1 p2 p3 show ?thesis
    by (simp add: fanned_out_def called_out_def)
qed

text \<open>
  C4, as stated, fails: the fanout of the fixture started at time 0 and Alice claimed the
  shift; the trigger at exactly 10 minutes returns the state with the flag still false.
\<close>

theorem no_escalation_once_claimed:
  "run clean_db [Fanout reliable 0 0 ''s1'',
     Inbound keyword_intent 1 (msg_from alice ''Yes I can do it'')] = alice_claimed_db \<and>
   get (fanout_db alice_claimed_db) ''s1'' =
     Some (fanned_out\<lparr>claimed_caregiver_id := Some ''c1''\<rparr>) \<and>
   started_at fanned_out = 0 \<and>
   fst (trigger_fanout reliable 0 ten_minutes alice_claimed_db ''s1'') =
     Inr (fanned_out\<lparr>claimed_caregiver_id := Some ''c1''\<rparr>) \<and>
   \<not> escalated_to_call (fanned_out\<lparr>claimed_caregiver_id := Some ''c1''\<rparr>)"
  by code_simp

text \<open>
  C4, amended. (1) From stores in which the flag of shift \<open>k\<close> is not set, after any
  sequence of requests in which every trigger for \<open>k\<close> reads the clock less than 10
  minutes after \<open>started_at\<close>, the flag is not set. (2) A trigger that reads the clock 10
  minutes or more after \<open>started_at\<close>, on a shift that line 93 does not take as claimed and
  with all its SMS sends completing, leaves the flag set in the stored state. (3) Once set,
  the flag stays set and \<open>started_at\<close> stays as it is under every sequence of requests.
  (4) A trigger that finds the flag not set leaves it set if and only if line 93 does not
  take the shift as claimed, the clock read is 10 minutes or more after \<open>started_at\<close> and
  every SMS it issued completed. (5) A trigger on a shift that line 93 takes as claimed
  sends nothing and leaves the stores as they are, and so does (6) a trigger for a shift
  that does not exist.
\<close>

theorem escalation_boundary:
  "((case get (fanout_db db) k of None \<Rightarrow> True | Some st \<Rightarrow> \<not> escalated_to_call st) \<longrightarrow>
      (\<forall>st'. get (fanout_db (run db qs)) k = Some st' \<longrightarrow>
         list_all (before_boundary k (started_at st')) qs \<longrightarrow> \<not> escalated_to_call st')) \<and>
   (\<forall>sh st db1. get (shift_db db) k = Some sh \<longrightarrow> get_or_create db k t0 = (st, db1) \<longrightarrow>
      \<not> truthy (claimed_caregiver_id st) \<longrightarrow> ten_minutes \<le> t1 - started_at st \<longrightarrow>
      list_all (send_ok nt)
        (filter (\<lambda>s. \<not> is_call s) (fst (snd (trigger_fanout nt t0 t1 db k)))) \<longrightarrow>
      (\<exists>st'. get (fanout_db (snd (snd (trigger_fanout nt t0 t1 db k)))) k = Some st' \<and>
         escalated_to_call st')) \<and>
   (\<forall>st. get (fanout_db db) k = Some st \<longrightarrow> escalated_to_call st \<longrightarrow>
      (\<exists>st'. get (fanout_db (run db qs)) k = Some st' \<and> escalated_to_call st' \<and>
         started_at st' = started_at st)) \<and>
   (\<forall>sh st db1. get (shift_db db) k = Some sh \<longrightarrow> get_or_create db k t0 = (st, db1) \<longrightarrow>
      \<not> escalated_to_call st \<longrightarrow>
      (\<exists>st'. get (fanout_db (snd (snd (trigger_fanout nt t0 t1 db k)))) k = Some st' \<and>
         started_at st' = started_at st \<and>
         escalated_to_call st' =
           (\<not> truthy (claimed_caregiver_id st) \<and> ten_minutes \<le> t1 - started_at st \<and>
            list_all (send_ok nt)
              (filter (\<lambda>s. \<not> is_call s) (fst (snd (trigger_fanout nt t0 t1 db k))))))) \<and>
   (\<forall>st. get (fanout_db db) k = Some st \<longrightarrow> truthy (claimed_caregiver_id st) \<longrightarrow>
      snd (snd (trigger_fanout nt t0 t1 db k)) = db \<and>
      fst (snd (trigger_fanout nt t0 t1 db k)) = []) \<and>
   (get (shift_db db) k = None \<longrightarrow> snd (snd (trigger_fanout nt t0 t1 db k)) = db)"
proof (intro conjI impI allI)
  fix st'
  assume init: "case get (fanout_db db) k of None \<Rightarrow> True | Some st \<Rightarrow> \<not> escalated_to_call st"
    and st': "get (fanout_db (run db qs)) k = Some st'"
    and early: "list_all (before_boundary k (started_at st')) qs"
  from init have "case get (fanout_db db) k of None \<Rightarrow> True
      | Some st \<Rightarrow> started_at st = started_at st' \<longrightarrow> \<not> escalated_to_call st"
    by (simp split: option.splits)
  from run_before_boundary [OF this early] st' show "\<not> escalated_to_call st'"
    by simp
next
  fix sh st db1
  assume "get (shift_db db) k = Some sh" "get_or_create db k t0 = (st, db1)"
    "\<not> truthy (claimed_caregiver_id st)" "ten_minutes \<le> t1 - started_at st"
    "list_all (send_ok nt)
        (filter (\<lambda>s. \<not> is_call s) (fst (snd (trigger_fanout nt t0 t1 db k))))"
  then show "\<exists>st'. get (fanout_db (snd (snd (trigger_fanout nt t0 t1 db k)))) k = Some st' \<and>
         escalated_to_call st'"
    by (rule trigger_fanout_escalates)
next
  fix st
  assume "get (fanout_db db) k = Some st" "escalated_to_call st"
  with run_later [of db k st qs]
  show "\<exists>st'. get (fanout_db (run db qs)) k = Some st' \<and> escalated_to_call st' \<and>
         started_at st' = started_at st"
    by (auto simp: later_def)
next
  fix sh st db1
  assume "get (shift_db db) k = Some sh" "get_or_create db k t0 = (st, db1)"
    "\<not> escalated_to_call st"
  then show "\<exists>st'. get (fanout_db (snd (snd (trigger_fanout nt t0 t1 db k)))) k = Some st' \<and>
         started_at st' = started_at st \<and>
         escalated_to_call st' =
           (\<not> truthy (claimed_caregiver_id st) \<and> ten_minutes \<le> t1 - started_at st \<and>
            list_all (send_ok nt)
              (filter (\<lambda>s. \<not> is_call s) (fst (snd (trigger_fanout nt t0 t1 db k)))))"
    by (rule trigger_fanout_flag)
next
  fix st
  assume st: "get (fanout_db db) k = Some st" "truthy (claimed_caregiver_id st)"
  from trigger_fanout_on_claimed [OF st]
  show "snd (snd (trigger_fanout nt t0 t1 db k)) = db"
    and "fst (snd (trigger_fanout nt t0 t1 db k)) = []"
    by simp_all
next
  assume "get (shift_db db) k = None"
  then show "snd (snd (trigger_fanout nt t0 t1 db k)) = db"
    by (simp add: trigger_fanout_not_found)
qed

theorem escalation_boundary_witness:
  "get (fanout_db fanout_started_db) ''s1'' = Some fanned_out \<and>
   list_all (before_boundary ''s1'' (started_at fanned_out))
     [Fanout reliable 0 540000000 ''s1'', Inbound keyword_intent 1 (msg_from carol ''Maybe'')] \<and>
   get (fanout_db (run fanout_started_db
     [Fanout reliable 0 540000000 ''s1'', Inbound keyword_intent 1 (msg_from carol ''Maybe'')]))
     ''s1'' = Some fanned_out \<and>
   \<not> escalated_to_call fanned_out \<and>
   get (shift_db fanout_started_db) ''s1'' = Some shift_s1 \<and>
   \<not> truthy (claimed_caregiver_id fanned_out) \<and>
   ten_minutes \<le> ten_minutes - started_at fanned_out \<and>
   get (fanout_db (snd (snd (trigger_fanout reliable 0 ten_minutes fanout_started_db ''s1''))))
     ''s1'' = Some called_out \<and>
   get (fanout_db escalated_db) ''s1'' = Some called_out \<and>
   escalated_to_call called_out \<and>
   get (fanout_db (run escalated_db
     [Fanout reliable 0 1200000000 ''s1'', Inbound keyword_intent 2 (msg_from carol ''Yes'')]))
     ''s1'' = Some (called_out\<lparr>claimed_caregiver_id := Some ''c3''\<rparr>) \<and>
   escalated_to_call (called_out\<lparr>claimed_caregiver_id := Some ''c3''\<rparr>) \<and>
   get (shift_db joined_db) ''s1'' = Some shift_s1 \<and>
   get (fanout_db joined_db) ''s1'' = Some fanned_out \<and>
   \<not> list_all (send_ok dave_unreachable) (filter (\<lambda>s. \<not> is_call s)
      (fst (snd (trigger_fanout dave_unreachable 0 ten_minutes joined_db ''s1'')))) \<and>
   get (fanout_db (snd (snd (trigger_fanout dave_unreachable 0 ten_minutes joined_db ''s1''))))
     ''s1'' = Some (fanned_out\<lparr>sms_notified_caregiver_ids := [''c1'', ''c3'', ''c4'']\<rparr>) \<and>
   \<not> escalated_to_call (fanned_out\<lparr>sms_notified_caregiver_ids := [''c1'', ''c3'', ''c4'']\<rparr>) \<and>
   get (fanout_db alice_claimed_db) ''s1'' =
     Some (fanned_out\<lparr>claimed_caregiver_id := Some ''c1''\<rparr>) \<and>
   truthy (claimed_caregiver_id (fanned_out\<lparr>claimed_caregiver_id := Some ''c1''\<rparr>)) \<and>
   snd (snd (trigger_fanout reliable 0 ten_minutes alice_claimed_db ''s1'')) =
     alice_claimed_db \<and>
   get (shift_db clean_db) ''s2'' = None \<and>
   snd (snd (trigger_fanout reliable 0 ten_minutes clean_db ''s2'')) = clean_db"
proof -
  let ?early = "[Fanout reliable 0 540000000 ''s1'',
                 Inbound keyword_intent 1 (msg_from carol ''Maybe'')]"
  let ?late = "[Fanout reliable 0 1200000000 ''s1'',
                Inbound keyword_intent 2 (msg_from carol ''Yes'')]"
  have a1: "get (fanout_db fanout_started_db) ''s1'' = Some fanned_out"
    by (simp add: fanout_started_db_def get_def)
  have a2: "case get (fanout_db fanout_started_db) ''s1'' of None \<Rightarrow> True
            | Some st \<Rightarrow> \<not> escalated_to_call st"
    by (simp add: a1 fanned_out_def)
  have a3: "get (fanout_db (run fanout_started_db ?early)) ''s1'' = Some fanned_out"
    by code_simp
  have a4: "list_all (before_boundary ''s1'' (started_at fanned_out)) ?early"
    by code_simp
  have p0: "\<not> escalated_to_call fanned_out"
    by (simp add: fanned_out_def)
  have b1: "get (shift_db fanout_started_db) ''s1'' = Some shift_s1"
    by (simp add: fanout_started_db_def clean_db_def get_def)
  have b2: "get_or_create fanout_started_db ''s1'' 0 = (fanned_out, fanout_started_db)"
    using a1 by (rule get_or_create_present)
  have b3: "\<not> truthy (claimed_caregiver_id fanned_out)"
    by (simp add: fanned_out_def truthy_def)
  have b4: "ten_minutes \<le> ten_minutes - started_at fanned_out"
    by (simp add: fanned_out_def)
  have b5: "list_all (send_ok reliable) (filter (\<lambda>s. \<not> is_call s)
              (fst (snd (trigger_fanout reliable 0 ten_minutes fanout_started_db ''s1''))))"
    by code_simp
  have b6: "get (fanout_db (snd (snd (trigger_fanout reliable 0 ten_minutes
              fanout_started_db ''s1'')))) ''s1'' = Some called_out"
    by code_simp
  have c1: "get (fanout_db escalated_db) ''s1'' = Some called_out"
    by (simp add: escalated_db_def get_def)
  have c2: "escalated_to_call called_out"
    by (simp add: called_out_def)
  have c3: "get (fanout_db (run escalated_db ?late)) ''s1'' =
              Some (called_out\<lparr>claimed_caregiver_id := Some ''c3''\<rparr>)"
    by code_simp
  have d1: "get (shift_db joined_db) ''s1'' = Some shift_s1"
    by code_simp
  have d2: "get (fanout_db joined_db) ''s1'' = Some fanned_out"
    by code_simp
  have d3: "get_or_create joined_db ''s1'' 0 = (fanned_out, joined_db)"
    using d2 by (rule get_or_create_present)
  have d4: "\<not> list_all (send_ok dave_unreachable) (filter (\<lambda>s. \<not> is_call s)
      (fst (snd (trigger_fanout dave_unreachable 0 ten_minutes joined_db ''s1''))))"
    by code_simp
  have d5: "get (fanout_db (snd (snd (trigger_fanout dave_unreachable 0 ten_minutes
      joined_db ''s1'')))) ''s1'' =
      Some (fanned_out\<lparr>sms_notified_caregiver_ids := [''c1'', ''c3'', ''c4'']\<rparr>)"
    by code_simp
  have e1: "get (fanout_db alice_claimed_db) ''s1'' =
      Some (fanned_out\<lparr>claimed_caregiver_id := Some ''c1''\<rparr>)"
    by (simp add: alice_claimed_db_def get_def)
  have e2: "truthy (claimed_caregiver_id (fanned_out\<lparr>claimed_caregiver_id := Some ''c1''\<rparr>))"
    by (simp add: truthy_def)
  have f1: "get (shift_db clean_db) ''s2'' = None"
    by (simp add: clean_db_def get_def)
  note sms_failed = escalation_boundary [of joined_db "''s1''" "[]" 0 ten_minutes dave_unreachable]
  note claimed = escalation_boundary [of alice_claimed_db "''s1''" "[]" 0 ten_minutes reliable]
  note missing = escalation_boundary [of clean_db "''s2''" "[]" 0 ten_minutes reliable]
  from sms_failed d1 d3 d4 d5 p0
  have p4: "\<not> escalated_to_call
      (fanned_out\<lparr>sms_notified_caregiver_ids := [''c1'', ''c3'', ''c4'']\<rparr>)"
    by fastforce
  from claimed e1 e2
  have p5: "snd (snd (trigger_fanout reliable 0 ten_minutes alice_claimed_db ''s1'')) =
      alice_claimed_db"
    by blast
  from missing f1
  have p6: "snd (snd (trigger_fanout reliable 0 ten_minutes clean_db ''s2'')) = clean_db"
    by blast
  note early = escalation_boundary [of fanout_started_db "''s1''" ?early 0 ten_minutes reliable]
  note late = escalation_boundary [of escalated_db "''s1''" ?late 0 ten_minutes reliable]
  from early a2 a3 a4 have p1: "\<not> escalated_to_call fanned_out"
    by blast
  from early b1 b2 b3 b4 b5 have "\<exists>st'. get (fanout_db (snd (snd (trigger_fanout reliable 0
      ten_minutes fanout_started_db ''s1'')))) ''s1'' = Some st' \<and> escalated_to_call st'"
    by blast
  with b6 have p2: "escalated_to_call called_out" by simp
  from late c1 c2 have "\<exists>st'. get (fanout_db (run escalated_db ?late)) ''s1'' = Some st' \<and>
      escalated_to_call st' \<and> started_at st' = started_at called_out"
    by blast
  with c3 have p3: "escalated_to_call (called_out\<lparr>claimed_caregiver_id := Some ''c3''\<rparr>)"
    by simp
  from a1 a3 a4 b1 b3 b4 b6 c1 c3 p1 p2 p3 d1 d2 d4 d5 e1 e2 f1 p4 p5 p6 show ?thesis
    by simp
qed

text \<open>
  C5, as stated, fails when the first call raises. Dave joined the pool after the first
  fanout and his SMS raises: the trigger at 10 minutes marks him, raises, and does not
  reach the escalation check; the second trigger right after it, with the same clock read,
  has no SMS left to send, finds the escalation due, places three calls and changes the
  stored state. The same happens through the endpoints alone after the accept of the
  caregiver with the empty id, when the SMS to Alice raises.
\<close>

theorem second_trigger_after_failed_first_places_calls:
  "run clean_db [Fanout reliable 0 0 ''s1''] = fanout_started_db \<and>
   joined_db =
     fanout_started_db\<lparr>caregiver_db := put (caregiver_db fanout_started_db) (c_id dave) dave\<rparr> \<and>
   trigger_fanout dave_unreachable 0 ten_minutes joined_db ''s1'' =
     (Inl ChannelSendFailure, [(SMS, ''+15555555'', ''New shift available! ID: s1'')],
      joined_db\<lparr>fanout_db :=
        [(''s1'', fanned_out\<lparr>sms_notified_caregiver_ids := [''c1'', ''c3'', ''c4'']\<rparr>)]\<rparr>) \<and>
   trigger_fanout dave_unreachable 0 ten_minutes
     (joined_db\<lparr>fanout_db :=
        [(''s1'', fanned_out\<lparr>sms_notified_caregiver_ids := [''c1'', ''c3'', ''c4'']\<rparr>)]\<rparr>)
     ''s1'' =
     (Inr (fanned_out\<lparr>sms_notified_caregiver_ids := [''c1'', ''c3'', ''c4''],
                       call_notified_caregiver_ids := [''c1'', ''c3'', ''c4''],
                       escalated_to_call := True\<rparr>),
      [(CALL, ''+15551111'', ''Urgent: Shift available! ID: s1''),
       (CALL, ''+15553333'', ''Urgent: Shift available! ID: s1''),
       (CALL, ''+15555555'', ''Urgent: Shift available! ID: s1'')],
      joined_db\<lparr>fanout_db :=
        [(''s1'', fanned_out\<lparr>sms_notified_caregiver_ids := [''c1'', ''c3'', ''c4''],
                            call_notified_caregiver_ids := [''c1'', ''c3'', ''c4''],
                            escalated_to_call := True\<rparr>)]\<rparr>) \<and>
   run dan_db [Inbound keyword_intent 0 (msg_from dan ''Yes'')] = dan_claimed_db \<and>
   fst (trigger_fanout alice_unreachable 0 ten_minutes dan_claimed_db ''s1'') =
     Inl ChannelSendFailure \<and>
   fst (snd (trigger_fanout alice_unreachable 0 ten_minutes
     (snd (snd (trigger_fanout alice_unreachable 0 ten_minutes dan_claimed_db ''s1''))) ''s1'')) =
     [(CALL, ''+15551111'', ''Urgent: Shift available! ID: s1''),
      (CALL, ''+15553333'', ''Urgent: Shift available! ID: s1''),
      (CALL, ''+15554444'', ''Urgent: Shift available! ID: s1'')]"
  by code_simp

text \<open>
  C5, amended. If a trigger returns a fanout state, a second trigger for the same shift
  right after it, with the same clock read at the escalation check and nothing in between,
  returns the same state, issues no SMS and no call, and leaves the stores as they are;
  whatever the notifier of the second call is.
\<close>

theorem trigger_twice:
  assumes "trigger_fanout nt t0 t1 db k = (Inr st, sends, db')"
  shows "trigger_fanout nt' t0' t1 db' k = (Inr st, [], db')"
proof (cases "get (shift_db db) k")
  case None
  with assms show ?thesis by (simp add: trigger_fanout_not_found)
next
  case (Some sh)
  obtain st0 db1 where goc: "get_or_create db k t0 = (st0, db1)"
    by (cases "get_or_create db k t0")
  note fr = get_or_create_frame [OF goc]
  have frame: "shift_db db' = shift_db db" "caregiver_db db' = caregiver_db db"
    using trigger_fanout_frame [of nt t0 t1 db k] assms by simp_all
  show ?thesis
  proof (cases "truthy (claimed_caregiver_id st0)")
    case True
    with Some goc assms have "st = st0" "db' = db1"
      by (simp_all add: trigger_fanout_def)
    with fr Some True show ?thesis
      by (intro trigger_fanout_claimed [of db' k sh]) simp_all
  next
    case False
    let ?el = "eligible_caregivers (caregiver_db db) sh"
    from trigger_fanout_summary [OF Some goc, of nt t1] assms
    have stored: "get (fanout_db db') k = Some st" and claimed: "\<not> truthy (claimed_caregiver_id st)"
      using False by auto
    have goc': "get_or_create db' k t0' = (st, db')"
      using stored by (rule get_or_create_present)
    have sh': "get (shift_db db') k = Some sh"
      using Some frame by simp
    from assms have marked: "to_notify ?el (sms_notified_caregiver_ids st) = []"
      and settled: "\<not> (ten_minutes \<le> t1 - started_at st \<and> \<not> escalated_to_call st)"
      unfolding trigger_fanout_unclaimed [OF Some goc False] Let_def
      by (auto simp: to_notify_again split: if_splits)
    have "put (fanout_db db') k st = fanout_db db'"
      using stored by (rule put_same)
    then show ?thesis
      unfolding trigger_fanout_unclaimed [OF sh' goc' claimed] Let_def
      using marked settled frame by auto
  qed
qed

theorem trigger_twice_witness:
  "trigger_fanout reliable 0 0 clean_db ''s1'' =
     (Inr fanned_out,
      [(SMS, ''+15551111'', ''New shift available! ID: s1''),
       (SMS, ''+15553333'', ''New shift available! ID: s1'')], fanout_started_db) \<and>
   trigger_fanout reliable 0 0 fanout_started_db ''s1'' = (Inr fanned_out, [], fanout_started_db)"
proof -
  have first: "trigger_fanout reliable 0 0 clean_db ''s1'' =
     (Inr fanned_out,
      [(SMS, ''+15551111'', ''New shift available! ID: s1''),
       (SMS, ''+15553333'', ''New shift available! ID: s1'')], fanout_started_db)"
    by code_simp
  from trigger_twice [OF first, of reliable 0] first show ?thesis by simp
qed

text \<open>
  C6. Line 93 tests the truth value of \<open>claimed_caregiver_id\<close>, not whether it is
  \<open>None\<close> as line 168 does. After the accept of a caregiver whose id is the empty
  string the shift is claimed (the response says so and carries the id), and a trigger
  still sends an SMS to every eligible caregiver and changes the notified list of the
  stored state. For a claimant with a non-empty id, \<open>trigger_fanout_claimed\<close> is the
  statement of the claim.
\<close>

theorem claim_by_empty_id_does_not_stop_fanout:
  "receive_message keyword_intent 0 dan_db (msg_from dan ''Yes'') =
     (Inr \<lparr>success = True, message = ''Shift successfully claimed!'',
            resp_shift_id = ''s1'', claimed_by = Some ''''\<rparr>, [''Yes''], dan_claimed_db) \<and>
   get (fanout_db dan_claimed_db) ''s1'' =
     Some ((new_fanout_state ''s1'' 0)\<lparr>claimed_caregiver_id := Some ''''\<rparr>) \<and>
   fst (snd (trigger_fanout reliable 1 1 dan_claimed_db ''s1'')) =
     [(SMS, ''+15551111'', ''New shift available! ID: s1''),
      (SMS, ''+15553333'', ''New shift available! ID: s1''),
      (SMS, ''+15554444'', ''New shift available! ID: s1'')] \<and>
   get (fanout_db (snd (snd (trigger_fanout reliable 1 1 dan_claimed_db ''s1'')))) ''s1'' =
     Some ((new_fanout_state ''s1'' 0)
            \<lparr>sms_notified_caregiver_ids := [''c1'', ''c3'', ''''],
             claimed_caregiver_id := Some ''''\<rparr>)"
  by code_simp

text \<open>
  C7. From stores in which every shift is held under its own id, the caregiver ids of the
  pool are distinct and no fanout has started, after any sequence of fanout triggers and
  inbound messages, for any shift: a caregiver of the pool whose role differs from the
  role the shift requires is in neither notified list of the shift's fanout state. The
  stores that \<open>load_sample_data\<close> builds are such stores (\<open>load_sample_data_start\<close>).
\<close>

theorem ineligible_never_notified:
  assumes "keyed_by_id (shift_db db)"
    and "distinct (map c_id (all_values (caregiver_db db)))"
    and "fanout_db db = []"
    and "get (shift_db (run db qs)) k = Some sh"
    and "get (fanout_db (run db qs)) k = Some st"
    and "c \<in> set (all_values (caregiver_db db))"
    and "role c \<noteq> role_required sh"
  shows "c_id c \<notin> set (sms_notified_caregiver_ids st) \<and>
         c_id c \<notin> set (call_notified_caregiver_ids st)"
proof -
  from assms(3) have "role_excluded db"
    by (simp add: role_excluded_def get_def)
  with assms(1,2) have "role_excluded (run db qs)"
    by (rule run_role_excluded)
  with assms(4-7) show ?thesis
    unfolding role_excluded_def by (simp add: run_caregiver_db)
qed

theorem ineligible_never_notified_witness:
  "keyed_by_id (shift_db clean_db) \<and>
   distinct (map c_id (all_values (caregiver_db clean_db))) \<and>
   fanout_db clean_db = [] \<and>
   get (shift_db (run clean_db
     [Fanout reliable 0 0 ''s1'', Inbound keyword_intent 1 (msg_from bob ''Yes''),
      Fanout reliable 0 600000000 ''s1''])) ''s1'' = Some shift_s1 \<and>
   get (fanout_db (run clean_db
     [Fanout reliable 0 0 ''s1'', Inbound keyword_intent 1 (msg_from bob ''Yes''),
      Fanout reliable 0 600000000 ''s1''])) ''s1'' = Some called_out \<and>
   bob \<in> set (all_values (caregiver_db clean_db)) \<and>
   role bob \<noteq> role_required shift_s1 \<and>
   c_id bob \<notin> set (sms_notified_caregiver_ids called_out) \<and>
   c_id bob \<notin> set (call_notified_caregiver_ids called_out)"
proof -
  let ?qs = "[Fanout reliable 0 0 ''s1'', Inbound keyword_intent 1 (msg_from bob ''Yes''),
              Fanout reliable 0 600000000 ''s1'']"
  have h1: "keyed_by_id (shift_db clean_db)"
    by (simp add: keyed_by_id_def clean_db_def shift_s1_def)
  have h2: "distinct (map c_id (all_values (caregiver_db clean_db)))"
    by (simp add: clean_db_def all_values_def alice_def bob_def carol_def)
  have h3: "fanout_db clean_db = []"
    by (simp add: clean_db_def)
  have h4: "get (shift_db (run clean_db ?qs)) ''s1'' = Some shift_s1"
    by code_simp
  have h5: "get (fanout_db (run clean_db ?qs)) ''s1'' = Some called_out"
    by code_simp
  have h6: "bob \<in> set (all_values (caregiver_db clean_db))"
    by (simp add: clean_db_def all_values_def)
  have h7: "role bob \<noteq> role_required shift_s1"
    by (simp add: bob_def shift_s1_def)
  from ineligible_never_notified [OF h1 h2 h3 h4 h5 h6 h7] h1 h2 h3 h4 h5 h6 h7
  show ?thesis by simp
qed

text \<open>
  C8. An inbound message from a known caregiver whose role is not the role the shift
  requires is answered with a non-success response, the classifier is not called (no body
  is handed to it, whatever the classifier is), and the stores are unchanged.
\<close>

theorem ineligible_rejected_before_classification:
  assumes "find (\<lambda>c. phone c = from_phone m) (all_values (caregiver_db db)) = Some cg"
    and "get (shift_db db) (msg_shift_id m) = Some sh"
    and "role_required sh \<noteq> role cg"
  shows "receive_message classify now db m =
           (Inr \<lparr>success = False, message = ''Not eligible for this shift role'',
                  resp_shift_id = s_id sh, claimed_by = claimed_by_caregiver_id sh\<rparr>, [], db)"
  using assms by (simp add: receive_message_def)

theorem ineligible_rejected_before_classification_witness:
  "find (\<lambda>c. phone c = from_phone (msg_from bob ''Yes'')) (all_values (caregiver_db clean_db))
     = Some bob \<and>
   get (shift_db clean_db) (msg_shift_id (msg_from bob ''Yes'')) = Some shift_s1 \<and>
   role_required shift_s1 \<noteq> role bob \<and>
   receive_message keyword_intent 0 clean_db (msg_from bob ''Yes'') =
     (Inr \<lparr>success = False, message = ''Not eligible for this shift role'',
            resp_shift_id = ''s1'', claimed_by = None\<rparr>, [], clean_db)"
proof -
  have h1: "find (\<lambda>c. phone c = from_phone (msg_from bob ''Yes''))
              (all_values (caregiver_db clean_db)) = Some bob"
    by (simp add: clean_db_def all_values_def msg_from_def alice_def bob_def)
  have h2: "get (shift_db clean_db) (msg_shift_id (msg_from bob ''Yes'')) = Some shift_s1"
    by (simp add: clean_db_def get_def msg_from_def)
  have h3: "role_required shift_s1 \<noteq> role bob"
    by (simp add: shift_s1_def bob_def)
  from ineligible_rejected_before_classification
    [of "msg_from bob ''Yes''" clean_db bob shift_s1 keyword_intent 0] h1 h2 h3
  show ?thesis by (simp add: shift_s1_def)
qed

text \<open>
  C9. A message that reaches the classifier (known caregiver, existing shift, matching
  role) and is classified as DECLINE or as anything else than ACCEPT leaves the stores
  unchanged and is answered with a non-success response that carries the claim pointer of
  the shift as it is: ``Shift declined'' for DECLINE, ``Intent unknown'' otherwise.
\<close>

theorem decline_and_unknown_are_inert:
  assumes "find (\<lambda>c. phone c = from_phone m) (all_values (caregiver_db db)) = Some cg"
    and "get (shift_db db) (msg_shift_id m) = Some sh"
    and "role_required sh = role cg"
    and "classify (body m) = DECLINE \<or> classify (body m) = UNKNOWN"
  shows "receive_message classify now db m =
           (Inr \<lparr>success = False,
                  message = (if classify (body m) = DECLINE then ''Shift declined''
                             else ''Intent unknown''),
                  resp_shift_id = s_id sh, claimed_by = claimed_by_caregiver_id sh\<rparr>,
            [body m], db)"
proof -
  from assms(4) have "classify (body m) \<noteq> ACCEPT" by auto
  with assms(1-3) show ?thesis by (rule receive_message_not_accept)
qed

theorem decline_and_unknown_are_inert_witness:
  "receive_message keyword_intent 0 alice_claimed_db (msg_from carol ''No thank you'') =
     (Inr \<lparr>success = False, message = ''Shift declined'', resp_shift_id = ''s1'',
            claimed_by = Some ''c1''\<rparr>, [''No thank you''], alice_claimed_db) \<and>
   receive_message keyword_intent 0 clean_db (msg_from alice ''Maybe'') =
     (Inr \<lparr>success = False, message = ''Intent unknown'', resp_shift_id = ''s1'',
            claimed_by = None\<rparr>, [''Maybe''], clean_db)"
proof -
  have c1: "find (\<lambda>c. phone c = from_phone (msg_from carol ''No thank you''))
              (all_values (caregiver_db alice_claimed_db)) = Some carol"
    by (simp add: alice_claimed_db_def clean_db_def all_values_def msg_from_def
        alice_def bob_def carol_def)
  have c2: "get (shift_db alice_claimed_db) (msg_shift_id (msg_from carol ''No thank you''))
              = Some (shift_s1\<lparr>claimed_by_caregiver_id := Some ''c1''\<rparr>)"
    by (simp add: alice_claimed_db_def clean_db_def get_def msg_from_def)
  have c3: "role_required (shift_s1\<lparr>claimed_by_caregiver_id := Some ''c1''\<rparr>) = role carol"
    by (simp add: shift_s1_def carol_def)
  have c4: "keyword_intent (body (msg_from carol ''No thank you'')) = DECLINE \<or>
            keyword_intent (body (msg_from carol ''No thank you'')) = UNKNOWN"
    by (simp add: keyword_intent_def msg_from_def)
  have a1: "find (\<lambda>c. phone c = from_phone (msg_from alice ''Maybe''))
              (all_values (caregiver_db clean_db)) = Some alice"
    by (simp add: clean_db_def all_values_def msg_from_def alice_def)
  have a2: "get (shift_db clean_db) (msg_shift_id (msg_from alice ''Maybe'')) = Some shift_s1"
    by (simp add: clean_db_def get_def msg_from_def)
  have a3: "role_required shift_s1 = role alice"
    by (simp add: shift_s1_def alice_def)
  have a4: "keyword_intent (body (msg_from alice ''Maybe'')) = DECLINE \<or>
            keyword_intent (body (msg_from alice ''Maybe'')) = UNKNOWN"
    by (simp add: keyword_intent_def msg_from_def)
  from decline_and_unknown_are_inert
      [of "msg_from carol ''No thank you''" alice_claimed_db carol
        "shift_s1\<lparr>claimed_by_caregiver_id := Some ''c1''\<rparr>" keyword_intent 0]
    decline_and_unknown_are_inert
      [of "msg_from alice ''Maybe''" clean_db alice shift_s1 keyword_intent 0]
    c1 c2 c3 c4 a1 a2 a3 a4
  show ?thesis
    by (simp add: keyword_intent_def msg_from_def shift_s1_def)
qed

text \<open>
  C10, as stated, fails in its SMS part: Dave joins the pool after the escalation and
  Carol has claimed the shift; the later trigger returns at line 94, sends nothing and
  does not add Dave to the SMS list.
\<close>

theorem no_sms_for_newcomer_once_claimed:
  "run clean_db [Fanout reliable 0 0 ''s1'', Fanout reliable 0 ten_minutes ''s1''] =
     escalated_db \<and>
   late_pool_db =
     escalated_db\<lparr>caregiver_db := put (caregiver_db escalated_db) (c_id dave) dave\<rparr> \<and>
   run late_pool_db [Inbound keyword_intent 2 (msg_from carol ''Accept please'')] =
     late_claimed_db \<and>
   get (fanout_db late_claimed_db) ''s1'' =
     Some (called_out\<lparr>claimed_caregiver_id := Some ''c3''\<rparr>) \<and>
   escalated_to_call (called_out\<lparr>claimed_caregiver_id := Some ''c3''\<rparr>) \<and>
   get (shift_db late_claimed_db) ''s1'' =
     Some (shift_s1\<lparr>claimed_by_caregiver_id := Some ''c3''\<rparr>) \<and>
   dave \<in> set (all_values (caregiver_db late_claimed_db)) \<and>
   role dave = role_required shift_s1 \<and>
   trigger_fanout reliable 0 1200000000 late_claimed_db ''s1'' =
     (Inr (called_out\<lparr>claimed_caregiver_id := Some ''c3''\<rparr>), [], late_claimed_db) \<and>
   c_id dave \<notin> set (sms_notified_caregiver_ids
     (called_out\<lparr>claimed_caregiver_id := Some ''c3''\<rparr>))"
  by code_simp

text \<open>
  C10, amended. (1) A trigger that issues a call finds the flag of the shift not set (or
  no fanout state) and leaves it set in the stored state. (2) Once the flag of shift \<open>k\<close>
  is set, then for any pool of caregivers put in place of the present one and any sequence
  of requests after that, the call list of the shift is the one it was, and a further
  trigger for the shift issues no call. (3) A trigger on a shift that line 93 does not take
  as claimed leaves every caregiver of the pool with the required role in the SMS list of
  the stored state.
\<close>

theorem calls_only_at_the_flip:
  "(\<forall>s \<in> set (fst (snd (trigger_fanout nt t0 t1 db k))). is_call s \<longrightarrow>
      (case get (fanout_db db) k of None \<Rightarrow> True | Some st \<Rightarrow> \<not> escalated_to_call st) \<and>
      (\<exists>st'. get (fanout_db (snd (snd (trigger_fanout nt t0 t1 db k)))) k = Some st' \<and>
         escalated_to_call st')) \<and>
   (\<forall>st. get (fanout_db db) k = Some st \<longrightarrow> escalated_to_call st \<longrightarrow>
      (\<exists>st'. get (fanout_db (run (db\<lparr>caregiver_db := pool\<rparr>) qs)) k = Some st' \<and>
         escalated_to_call st' \<and>
         call_notified_caregiver_ids st' = call_notified_caregiver_ids st \<and>
         filter is_call
           (fst (snd (trigger_fanout nt t0 t1 (run (db\<lparr>caregiver_db := pool\<rparr>) qs) k))) = [])) \<and>
   (\<forall>sh c. get (shift_db db) k = Some sh \<longrightarrow> unclaimed db k \<longrightarrow>
      c \<in> set (all_values (caregiver_db db)) \<longrightarrow> role c = role_required sh \<longrightarrow>
      (\<exists>st'. get (fanout_db (snd (snd (trigger_fanout nt t0 t1 db k)))) k = Some st' \<and>
         c_id c \<in> set (sms_notified_caregiver_ids st')))"
proof (intro conjI ballI allI impI)
  fix s
  assume "s \<in> set (fst (snd (trigger_fanout nt t0 t1 db k)))" "is_call s"
  from trigger_fanout_calls [OF this]
  show "case get (fanout_db db) k of None \<Rightarrow> True | Some st \<Rightarrow> \<not> escalated_to_call st"
    and "\<exists>st'. get (fanout_db (snd (snd (trigger_fanout nt t0 t1 db k)))) k = Some st' \<and>
         escalated_to_call st'"
    by simp_all
next
  fix st
  assume st: "get (fanout_db db) k = Some st" "escalated_to_call st"
  let ?db = "run (db\<lparr>caregiver_db := pool\<rparr>) qs"
  from st have "get (fanout_db (db\<lparr>caregiver_db := pool\<rparr>)) k = Some st" by simp
  from run_calls_frozen [OF this st(2), of qs] obtain st' where
    st': "get (fanout_db ?db) k = Some st'" "escalated_to_call st'"
      "call_notified_caregiver_ids st' = call_notified_caregiver_ids st" by blast
  have "filter is_call (fst (snd (trigger_fanout nt t0 t1 ?db k))) = []"
  proof (rule ccontr)
    assume "filter is_call (fst (snd (trigger_fanout nt t0 t1 ?db k))) \<noteq> []"
    then obtain s where "s \<in> set (fst (snd (trigger_fanout nt t0 t1 ?db k)))" "is_call s"
      by (auto simp: filter_empty_conv)
    from trigger_fanout_calls [OF this] st'(1,2) show False by simp
  qed
  with st' show "\<exists>st'. get (fanout_db ?db) k = Some st' \<and> escalated_to_call st' \<and>
         call_notified_caregiver_ids st' = call_notified_caregiver_ids st \<and>
         filter is_call (fst (snd (trigger_fanout nt t0 t1 ?db k))) = []"
    by simp
next
  fix sh c
  assume "get (shift_db db) k = Some sh" "unclaimed db k"
    "c \<in> set (all_values (caregiver_db db))" "role c = role_required sh"
  then show "\<exists>st'. get (fanout_db (snd (snd (trigger_fanout nt t0 t1 db k)))) k = Some st' \<and>
         c_id c \<in> set (sms_notified_caregiver_ids st')"
    by (rule trigger_fanout_marks_sms)
qed

theorem calls_only_at_the_flip_witness:
  "(CALL, ''+15551111'', ''Urgent: Shift available! ID: s1'')
     \<in> set (fst (snd (trigger_fanout reliable 0 ten_minutes fanout_started_db ''s1''))) \<and>
   get (fanout_db fanout_started_db) ''s1'' = Some fanned_out \<and>
   \<not> escalated_to_call fanned_out \<and>
   get (fanout_db (snd (snd (trigger_fanout reliable 0 ten_minutes fanout_started_db ''s1''))))
     ''s1'' = Some called_out \<and>
   escalated_to_call called_out \<and>
   get (fanout_db escalated_db) ''s1'' = Some called_out \<and>
   run (escalated_db\<lparr>caregiver_db := caregiver_db late_pool_db\<rparr>)
     [Fanout reliable 0 1200000000 ''s1''] =
     late_pool_db\<lparr>fanout_db :=
       [(''s1'', called_out\<lparr>sms_notified_caregiver_ids := [''c1'', ''c3'', ''c4'']\<rparr>)]\<rparr> \<and>
   filter is_call (fst (snd (trigger_fanout reliable 0 1800000000
     (run (escalated_db\<lparr>caregiver_db := caregiver_db late_pool_db\<rparr>)
        [Fanout reliable 0 1200000000 ''s1'']) ''s1''))) = [] \<and>
   c_id dave \<notin> set (call_notified_caregiver_ids called_out) \<and>
   get (shift_db late_pool_db) ''s1'' = Some shift_s1 \<and>
   unclaimed late_pool_db ''s1'' \<and>
   dave \<in> set (all_values (caregiver_db late_pool_db)) \<and>
   role dave = role_required shift_s1 \<and>
   get (fanout_db (snd (snd (trigger_fanout reliable 0 1200000000 late_pool_db ''s1''))))
     ''s1'' = Some (called_out\<lparr>sms_notified_caregiver_ids := [''c1'', ''c3'', ''c4'']\<rparr>)"
proof -
  let ?call = "(CALL, ''+15551111'', ''Urgent: Shift available! ID: s1'')"
  let ?late = "run (escalated_db\<lparr>caregiver_db := caregiver_db late_pool_db\<rparr>)
                 [Fanout reliable 0 1200000000 ''s1'']"
  have a1: "?call \<in> set (fst (snd (trigger_fanout reliable 0 ten_minutes fanout_started_db ''s1'')))"
    by code_simp
  have a2: "is_call ?call" by simp
  have a3: "get (fanout_db fanout_started_db) ''s1'' = Some fanned_out"
    by (simp add: fanout_started_db_def get_def)
  have a4: "get (fanout_db (snd (snd (trigger_fanout reliable 0 ten_minutes
              fanout_started_db ''s1'')))) ''s1'' = Some called_out"
    by code_simp
  have b1: "get (fanout_db escalated_db) ''s1'' = Some called_out"
    by (simp add: escalated_db_def get_def)
  have b2: "escalated_to_call called_out"
    by (simp add: called_out_def)
  have b3: "?late = late_pool_db\<lparr>fanout_db :=
       [(''s1'', called_out\<lparr>sms_notified_caregiver_ids := [''c1'', ''c3'', ''c4'']\<rparr>)]\<rparr>"
    by code_simp
  have b4: "c_id dave \<notin> set (call_notified_caregiver_ids called_out)"
    by (simp add: called_out_def dave_def)
  have c1: "get (shift_db late_pool_db) ''s1'' = Some shift_s1"
    by (simp add: late_pool_db_def escalated_db_def clean_db_def get_def)
  have c2: "unclaimed late_pool_db ''s1''"
    by code_simp
  have c3: "dave \<in> set (all_values (caregiver_db late_pool_db))"
    by (simp add: late_pool_db_def escalated_db_def clean_db_def all_values_def dave_def)
  have c4: "role dave = role_required shift_s1"
    by (simp add: dave_def shift_s1_def)
  have c5: "get (fanout_db (snd (snd (trigger_fanout reliable 0 1200000000 late_pool_db ''s1''))))
     ''s1'' = Some (called_out\<lparr>sms_notified_caregiver_ids := [''c1'', ''c3'', ''c4'']\<rparr>)"
    by code_simp
  note flip = calls_only_at_the_flip [of reliable 0 ten_minutes fanout_started_db "''s1''"
      "caregiver_db fanout_started_db" "[]"]
  note frozen = calls_only_at_the_flip [of reliable 0 1800000000 escalated_db "''s1''"
      "caregiver_db late_pool_db" "[Fanout reliable 0 1200000000 ''s1'']"]
  note sms = calls_only_at_the_flip [of reliable 0 1200000000 late_pool_db "''s1''"
      "caregiver_db late_pool_db" "[]"]
  from flip a1 a2 a3 a4 have p1: "\<not> escalated_to_call fanned_out \<and> escalated_to_call called_out"
    by fastforce
  from frozen b1 b2 have p2: "filter is_call (fst (snd (trigger_fanout reliable 0 1800000000
      ?late ''s1''))) = []"
    by blast
  from sms c1 c2 c3 c4 have "\<exists>st'. get (fanout_db (snd (snd (trigger_fanout reliable 0
      1200000000 late_pool_db ''s1'')))) ''s1'' = Some st' \<and>
      c_id dave \<in> set (sms_notified_caregiver_ids st')"
    by blast
  with a1 a3 a4 b1 b3 b4 c1 c2 c3 c4 c5 p1 p2 show ?thesis by simp
qed

end
